theory Spec2Isabelle
  imports Complex_Main "HOL-Library.Char_ord" "HOL-Library.List_Lexorder"
    "HOL-Library.Product_Lexorder"
begin

section \<open>Model router: \<open>getProvider\<close>\<close>

text \<open>
  JavaScript strings are modelled as \<open>string\<close> (a list of characters). The two string
  predicates the router uses are \<open>String.prototype.startsWith\<close> and
  \<open>String.prototype.includes\<close> (contiguous substring).
\<close>

definition startsWith :: "string \<Rightarrow> string \<Rightarrow> bool" where
  "startsWith s p = (take (length p) s = p)"

fun includes_str :: "string \<Rightarrow> string \<Rightarrow> bool" where
  "includes_str [] p = (p = [])"
| "includes_str (c # s) p = (startsWith (c # s) p \<or> includes_str s p)"

datatype provider = openai | anthropic | google | groq | xai

text \<open>The table \<open>DEFAULT_MODELS\<close>.\<close>

fun DEFAULT_MODELS :: "provider \<Rightarrow> string" where
  "DEFAULT_MODELS openai = ''gpt-4o-mini''"
| "DEFAULT_MODELS anthropic = ''claude-3-haiku-20240307''"
| "DEFAULT_MODELS google = ''gemini-1.5-flash''"
| "DEFAULT_MODELS groq = ''llama-3.1-8b-instant''"
| "DEFAULT_MODELS xai = ''grok-beta''"

record resolved =
  provider :: provider
  modelId :: string

text \<open>\<open>getProvider\<close>, branch by branch as in the source.\<close>

definition getProvider :: "string \<Rightarrow> resolved" where
  "getProvider model =
     (if startsWith model ''gpt-'' \<or> includes_str model ''openai'' then
        \<lparr>provider = openai, modelId = model\<rparr>
      else if startsWith model ''claude-'' \<or> includes_str model ''anthropic'' then
        \<lparr>provider = anthropic, modelId = model\<rparr>
      else if startsWith model ''gemini-'' \<or> includes_str model ''google'' then
        \<lparr>provider = google, modelId = model\<rparr>
      else if includes_str model ''llama'' \<or> includes_str model ''groq'' then
        \<lparr>provider = groq, modelId = model\<rparr>
      else if includes_str model ''grok'' \<or> includes_str model ''xai'' then
        \<lparr>provider = xai, modelId = model\<rparr>
      else \<lparr>provider = openai, modelId = DEFAULT_MODELS openai\<rparr>)"

text \<open>
  The specification's reading of the router: a fixed ordered rule table, each rule a
  predicate over the identifier and a target backend; the first matching rule wins and
  an identifier that matches no rule goes to the default backend with the default model.
\<close>

definition resolution_rules :: "((string \<Rightarrow> bool) \<times> provider) list" where
  "resolution_rules =
     [(\<lambda>m. startsWith m ''gpt-'' \<or> includes_str m ''openai'', openai),
      (\<lambda>m. startsWith m ''claude-'' \<or> includes_str m ''anthropic'', anthropic),
      (\<lambda>m. startsWith m ''gemini-'' \<or> includes_str m ''google'', google),
      (\<lambda>m. includes_str m ''llama'' \<or> includes_str m ''groq'', groq),
      (\<lambda>m. includes_str m ''grok'' \<or> includes_str m ''xai'', xai)]"

definition matching_rules :: "string \<Rightarrow> ((string \<Rightarrow> bool) \<times> provider) list" where
  "matching_rules m = filter (\<lambda>r. fst r m) resolution_rules"

definition resolve_spec :: "string \<Rightarrow> resolved" where
  "resolve_spec m =
     (case matching_rules m of
        [] \<Rightarrow> \<lparr>provider = openai, modelId = DEFAULT_MODELS openai\<rparr>
      | r # _ \<Rightarrow> \<lparr>provider = snd r, modelId = m\<rparr>)"

section \<open>Chat completion endpoint: \<open>POST /api/chatbot\<close>\<close>

datatype role = User | Assistant | System

definition parse_role :: "string \<Rightarrow> role option" where
  "parse_role s =
     (if s = ''user'' then Some User
      else if s = ''assistant'' then Some Assistant
      else if s = ''system'' then Some System
      else None)"

text \<open>
  The JSON body of a chat request, before validation. Fields that the schema marks
  \<open>optional()\<close> are options; a role is still an arbitrary string. Numbers are JavaScript
  numbers (not necessarily integral), modelled as reals.
\<close>

record raw_message =
  raw_role :: string
  raw_content :: string

record chat_body =
  body_messages :: "raw_message list"
  body_conversationId :: "string option"
  body_model :: "string option"
  body_temperature :: "real option"
  body_maxTokens :: "real option"
  body_stream :: "bool option"
  body_systemPrompt :: "string option"

record core_message =
  msg_role :: role
  msg_content :: string

record validated_chat =
  v_messages :: "core_message list"
  v_conversationId :: "string option"
  v_model :: "string option"
  v_temperature :: "real option"
  v_maxTokens :: "real option"
  v_stream :: bool
  v_systemPrompt :: "string option"

text \<open>
  \<open>ChatbotRequestSchema.parse\<close>: every role is one of the three enum values, the
  temperature lies in \<open>[0, 2]\<close>, \<open>maxTokens\<close> in \<open>[1, 4000]\<close>, and \<open>stream\<close> defaults
  to true. The array of messages carries no length constraint in the schema. A failed
  parse throws a \<open>ZodError\<close>; its issues are modelled as the paths of the offending
  fields.
\<close>

definition role_ok :: "raw_message \<Rightarrow> bool" where
  "role_ok m = (parse_role (raw_role m) \<noteq> None)"

definition to_core :: "raw_message \<Rightarrow> core_message" where
  "to_core m =
     \<lparr>msg_role = (case parse_role (raw_role m) of Some r \<Rightarrow> r | None \<Rightarrow> User),
      msg_content = raw_content m\<rparr>"

definition chat_issues :: "chat_body \<Rightarrow> string list" where
  "chat_issues b =
     (if list_all role_ok (body_messages b) then [] else [''messages.role'']) @
     (case body_temperature b of
        None \<Rightarrow> []
      | Some t \<Rightarrow> if 0 \<le> t \<and> t \<le> 2 then [] else [''temperature'']) @
     (case body_maxTokens b of
        None \<Rightarrow> []
      | Some n \<Rightarrow> if 1 \<le> n \<and> n \<le> 4000 then [] else [''maxTokens''])"

definition ChatbotRequestSchema_parse :: "chat_body \<Rightarrow> string list + validated_chat" where
  "ChatbotRequestSchema_parse b =
     (if chat_issues b = [] then
        Inr \<lparr>v_messages = map to_core (body_messages b),
             v_conversationId = body_conversationId b,
             v_model = body_model b,
             v_temperature = body_temperature b,
             v_maxTokens = body_maxTokens b,
             v_stream = (case body_stream b of None \<Rightarrow> True | Some s \<Rightarrow> s),
             v_systemPrompt = body_systemPrompt b\<rparr>
      else Inl (chat_issues b))"

text \<open>
  JavaScript's \<open>x || d\<close> on an optional string: the default is taken when the string is
  absent and also when it is empty.
\<close>

definition truthy :: "string option \<Rightarrow> bool" where
  "truthy s = (case s of None \<Rightarrow> False | Some t \<Rightarrow> t \<noteq> [])"

definition or_else :: "string option \<Rightarrow> string \<Rightarrow> string" where
  "or_else s d = (case s of None \<Rightarrow> d | Some t \<Rightarrow> if t = [] then d else t)"

definition SYSTEM_PROMPTS_default :: string where
  "SYSTEM_PROMPTS_default =
     ''You are a helpful, harmless, and honest AI assistant. Provide accurate, detailed, and well-structured responses to user queries.''"

subsection \<open>The collaborators of the handler\<close>

text \<open>
  The value of the \<open>selectedModel\<close> cookie: absent (or empty), present but rejected by
  \<open>JSON.parse\<close>, or a parsed model object with its \<open>id\<close>.
\<close>

datatype saved_model = NoCookie | Unparsable | SavedModel string

record usage =
  promptTokens :: nat
  completionTokens :: nat
  totalTokens :: nat

datatype finish_reason = Stop | Length | OtherReason string

text \<open>
  What one call of the library function \<open>streamText\<close> would deliver. Either the call
  throws, or it returns a result whose stream, once something reads it, carries the
  backend's text increments in emission order and ends either by completing (with usage
  and finish reason) or by failing.
\<close>

datatype outcome = Completed usage finish_reason | BackendFailed

datatype backend_run = SetupThrows | Streams "string list" outcome

record gen_call =
  call_provider :: provider
  call_modelId :: string
  call_messages :: "core_message list"
  call_temperature :: real
  call_maxTokens :: real

record auth_env =
  currentUserId :: "string option"

record chat_env = auth_env +
  selectedModelCookie :: saved_model
  streamText :: "gen_call \<Rightarrow> backend_run"

subsection \<open>Stream events and responses\<close>

datatype stream_event =
    TextChunk string "string option"
  | Finished "string option" usage finish_reason
  | Error "string option" string

text \<open>
  The JSON of a non-streaming success. Its \<open>usage\<close> member is \<open>result.usage\<close>, a promise
  the handler does not await; a promise serialises to an empty object, so the member
  carries nothing and has no field here.
\<close>

record chat_success =
  message_role :: role
  message_content :: string
  resp_conversationId :: "string option"
  resp_model :: string

text \<open>
  The answers of the handler. \<open>NeverAnswers\<close> is a request whose handler awaits a promise
  that does not settle: no response is sent.
\<close>

datatype chat_response =
    DataStream "stream_event list"
  | JsonSuccess chat_success
  | InvalidRequest "string list"
  | InternalServerError
  | NeverAnswers

fun chat_status :: "chat_response \<Rightarrow> nat option" where
  "chat_status (DataStream _) = Some 200"
| "chat_status (JsonSuccess _) = Some 200"
| "chat_status (InvalidRequest _) = Some 400"
| "chat_status InternalServerError = Some 500"
| "chat_status NeverAnswers = None"

subsection \<open>The streaming branch\<close>

text \<open>
  The \<open>execute\<close> callback given to \<open>createDataStreamResponse\<close>. Its \<open>try\<close> block calls
  \<open>streamText\<close> with the callbacks \<open>onChunk\<close> and \<open>onFinish\<close> and then
  \<open>result.pipeDataStreamToResponse(dataStream)\<close>, awaiting neither. That method writes to
  a Node \<open>ServerResponse\<close>; what it is given is the \<open>DataStreamWriter\<close>, and the call
  throws. So on every request an exception is raised inside the \<open>try\<close> block, by
  \<open>streamText\<close> or by the pipe call, before the backend has delivered anything: the
  \<open>catch\<close> clause writes the one \<open>error\<close> event, \<open>execute\<close> returns and the data stream is
  closed. Nothing the two callbacks would write afterwards is part of the response.
\<close>

fun execute :: "string option \<Rightarrow> backend_run \<Rightarrow> stream_event list" where
  "execute conversationId SetupThrows = [Error conversationId ''Failed to generate response'']"
| "execute conversationId (Streams chunks out) =
     [Error conversationId ''Failed to generate response'']"

subsection \<open>The non-streaming branch\<close>

text \<open>
  When \<open>streamText\<close> throws, the exception reaches the outer \<open>catch\<close>, which answers 500.
  Otherwise the handler awaits \<open>result.text\<close>. Nothing reads the stream of the result, so
  the promise does not settle, whatever the backend would deliver: the handler does not
  get to the \<open>Response.json\<close> below the \<open>await\<close> and never answers.
\<close>

fun buffered :: "string option \<Rightarrow> string \<Rightarrow> backend_run \<Rightarrow> chat_response" where
  "buffered conversationId selectedModel SetupThrows = InternalServerError"
| "buffered conversationId selectedModel (Streams chunks out) = NeverAnswers"

section \<open>The Redis store behind the conversation endpoints\<close>

record message =
  role :: role
  content :: string
  timestamp :: string

record conversation =
  conv_id :: string
  title :: string
  messages :: "message list"
  model :: string
  createdAt :: string
  updatedAt :: string
  userId :: string

text \<open>
  The store holds string keys (a serialised conversation, always written with an expiry)
  and sorted sets (the per-user index: members with scores, and the expiry of the key if
  one was set). Instants are milliseconds, as \<open>Date.now()\<close> gives them; a key is live at
  \<open>now\<close> while \<open>now\<close> is before its expiry, and an expired key reads as absent.
  \<open>JSON.stringify\<close> followed by \<open>JSON.parse\<close> is taken to give the record back.
\<close>

record zset =
  members :: "(string \<times> nat) list"
  zexpires :: "nat option"

record redis_db =
  strings :: "string \<rightharpoonup> (conversation \<times> nat)"
  zsets :: "string \<rightharpoonup> zset"

text \<open>
  The imported handle \<open>redis\<close>: \<open>null\<close> when no store is configured, otherwise a client.
  \<open>Down\<close> is a client whose server cannot be reached: every command it sends rejects.
\<close>

datatype redis_handle = NoRedis | Down | Up redis_db

definition redis_get :: "redis_db \<Rightarrow> nat \<Rightarrow> string \<Rightarrow> conversation option" where
  "redis_get db now k =
     (case strings db k of
        None \<Rightarrow> None
      | Some (v, e) \<Rightarrow> if now < e then Some v else None)"

definition redis_set :: "redis_db \<Rightarrow> nat \<Rightarrow> string \<Rightarrow> conversation \<Rightarrow> nat \<Rightarrow> redis_db" where
  "redis_set db now k v ex = db\<lparr>strings := (strings db)(k \<mapsto> (v, now + ex * 1000))\<rparr>"

text \<open>\<open>DEL\<close> answers the number of keys it removed.\<close>

definition redis_del :: "redis_db \<Rightarrow> nat \<Rightarrow> string \<Rightarrow> redis_db \<times> nat" where
  "redis_del db now k =
     (db\<lparr>strings := (strings db)(k := None)\<rparr>,
      (case redis_get db now k of None \<Rightarrow> 0 | Some _ \<Rightarrow> 1))"

definition live_zset :: "redis_db \<Rightarrow> nat \<Rightarrow> string \<Rightarrow> zset option" where
  "live_zset db now k =
     (case zsets db k of
        None \<Rightarrow> None
      | Some z \<Rightarrow>
          (case zexpires z of
             None \<Rightarrow> Some z
           | Some e \<Rightarrow> if now < e then Some z else None))"

definition zmembers :: "redis_db \<Rightarrow> nat \<Rightarrow> string \<Rightarrow> (string \<times> nat) list" where
  "zmembers db now k = (case live_zset db now k of None \<Rightarrow> [] | Some z \<Rightarrow> members z)"

definition zttl :: "redis_db \<Rightarrow> nat \<Rightarrow> string \<Rightarrow> nat option" where
  "zttl db now k = (case live_zset db now k of None \<Rightarrow> None | Some z \<Rightarrow> zexpires z)"

text \<open>
  \<open>ZADD key score member\<close> adds the member or moves it to the new score. It creates the
  key when it is absent (or has expired) and leaves the expiry of a live key as it is.
\<close>

definition redis_zadd :: "redis_db \<Rightarrow> nat \<Rightarrow> string \<Rightarrow> nat \<Rightarrow> string \<Rightarrow> redis_db" where
  "redis_zadd db now k score member =
     db\<lparr>zsets := (zsets db)(k \<mapsto>
        \<lparr>members = (member, score) # filter (\<lambda>p. fst p \<noteq> member) (zmembers db now k),
         zexpires = zttl db now k\<rparr>)\<rparr>"

text \<open>\<open>ZREM\<close>; a sorted set that loses its last member is removed with its key.\<close>

definition redis_zrem :: "redis_db \<Rightarrow> nat \<Rightarrow> string \<Rightarrow> string \<Rightarrow> redis_db" where
  "redis_zrem db now k member =
     (let rest = filter (\<lambda>p. fst p \<noteq> member) (zmembers db now k)
      in if rest = [] then db\<lparr>zsets := (zsets db)(k := None)\<rparr>
         else db\<lparr>zsets := (zsets db)(k \<mapsto> \<lparr>members = rest, zexpires = zttl db now k\<rparr>)\<rparr>)"

text \<open>\<open>EXPIRE key seconds\<close> sets the expiry of a key that exists.\<close>

definition redis_expire :: "redis_db \<Rightarrow> nat \<Rightarrow> string \<Rightarrow> nat \<Rightarrow> redis_db" where
  "redis_expire db now k secs =
     (case live_zset db now k of
        None \<Rightarrow> db
      | Some z \<Rightarrow> db\<lparr>zsets := (zsets db)(k \<mapsto> z\<lparr>zexpires := Some (now + secs * 1000)\<rparr>)\<rparr>)"

definition redis_zcard :: "redis_db \<Rightarrow> nat \<Rightarrow> string \<Rightarrow> nat" where
  "redis_zcard db now k = length (zmembers db now k)"

text \<open>
  \<open>ZREVRANGE key start stop\<close>: the members from the highest score to the lowest (equal
  scores in descending order of the member), cut to the inclusive index range. A
  negative index counts from the end of the set, \<open>-1\<close> being the last member; a range
  that starts after it stops, or past the end, is empty.
\<close>

definition zrev_order :: "(string \<times> nat) list \<Rightarrow> string list" where
  "zrev_order ms = map fst (rev (sort_key (\<lambda>p. (snd p, fst p)) ms))"

definition index_range :: "'a list \<Rightarrow> int \<Rightarrow> int \<Rightarrow> 'a list" where
  "index_range xs start stop =
     (let n = int (length xs);
          s = (if start < 0 then max (n + start) 0 else start);
          e = (if stop < 0 then n + stop else min stop (n - 1))
      in if e < s \<or> n \<le> s then [] else take (nat (e - s + 1)) (drop (nat s) xs))"

definition redis_zrevrange :: "redis_db \<Rightarrow> nat \<Rightarrow> string \<Rightarrow> int \<Rightarrow> int \<Rightarrow> string list" where
  "redis_zrevrange db now k start stop = index_range (zrev_order (zmembers db now k)) start stop"

section \<open>The handler of \<open>POST /api/chatbot\<close>\<close>

definition selectModel :: "string option \<Rightarrow> saved_model \<Rightarrow> string" where
  "selectModel requestedModel cookie =
     (let selectedModel = or_else requestedModel (DEFAULT_MODELS openai)
      in if \<not> truthy requestedModel then
           (case cookie of SavedModel i \<Rightarrow> i | _ \<Rightarrow> selectedModel)
         else selectedModel)"

definition gen_call_of :: "validated_chat \<Rightarrow> string \<Rightarrow> gen_call" where
  "gen_call_of v selectedModel =
     \<lparr>call_provider = provider (getProvider selectedModel),
      call_modelId = modelId (getProvider selectedModel),
      call_messages =
        \<lparr>msg_role = System,
         msg_content = or_else (v_systemPrompt v) SYSTEM_PROMPTS_default\<rparr> # v_messages v,
      call_temperature = (case v_temperature v of None \<Rightarrow> 0.7 | Some t \<Rightarrow> t),
      call_maxTokens = (case v_maxTokens v of None \<Rightarrow> 2000 | Some n \<Rightarrow> n)\<rparr>"

text \<open>
  The handler. A body that is not JSON (\<open>None\<close>) makes \<open>req.json()\<close> throw. The user id is
  read after validation and goes into a log line only. The module does not import the
  store; the handle is passed through so that the store after the request can be
  compared with the store before it. Beside the answer and the store, the result lists
  the calls of \<open>streamText\<close> the request made: one, in either branch, once the body has
  passed validation.
\<close>

record chat_result =
  chat_answer :: chat_response
  chat_store :: redis_handle
  chat_calls :: "gen_call list"

definition chatbot_handler ::
  "chat_env \<Rightarrow> redis_handle \<Rightarrow> chat_body option \<Rightarrow> chat_result" where
  "chatbot_handler env redis body =
     (case body of
        None \<Rightarrow> \<lparr>chat_answer = InternalServerError, chat_store = redis, chat_calls = []\<rparr>
      | Some b \<Rightarrow>
          (case ChatbotRequestSchema_parse b of
             Inl issues \<Rightarrow>
               \<lparr>chat_answer = InvalidRequest issues, chat_store = redis, chat_calls = []\<rparr>
           | Inr v \<Rightarrow>
               (let userId = currentUserId env;
                    selectedModel = selectModel (v_model v) (selectedModelCookie env);
                    call = gen_call_of v selectedModel;
                    run = streamText env call
                in \<lparr>chat_answer =
                       (if v_stream v then DataStream (execute (v_conversationId v) run)
                        else buffered (v_conversationId v) selectedModel run),
                     chat_store = redis,
                     chat_calls = [call]\<rparr>)))"

definition chatbot_POST ::
  "chat_env \<Rightarrow> redis_handle \<Rightarrow> chat_body option \<Rightarrow> chat_response \<times> redis_handle" where
  "chatbot_POST env redis body =
     (chat_answer (chatbot_handler env redis body), chat_store (chatbot_handler env redis body))"

section \<open>The conversation endpoints\<close>

record http_error =
  status :: nat
  error :: string
  details :: "string list"

definition failure :: "nat \<Rightarrow> string \<Rightarrow> http_error" where
  "failure code msg = \<lparr>status = code, error = msg, details = []\<rparr>"

definition invalid_request :: "string list \<Rightarrow> http_error" where
  "invalid_request issues =
     \<lparr>status = 400, error = ''Invalid request format'', details = issues\<rparr>"

definition unauthorized :: http_error where
  "unauthorized = failure 401 ''Unauthorized''"

definition not_found :: http_error where
  "not_found = failure 404 ''Conversation not found''"

text \<open>
  What a conversation handler reads from its surroundings: the current user, the id
  \<open>nanoid()\<close> returns, and the clock, as the ISO text of \<open>new Date().toISOString()\<close> and as
  the milliseconds of \<open>Date.now()\<close> (which also serve as the store's clock).
\<close>

record conv_env = auth_env +
  nanoid :: string
  nowIso :: string
  nowMs :: nat

definition getConversationKey :: "string \<Rightarrow> string \<Rightarrow> string" where
  "getConversationKey uid conversationId = ''conversation:'' @ uid @ '':'' @ conversationId"

definition getUserConversationsKey :: "string \<Rightarrow> string" where
  "getUserConversationsKey uid = ''conversations:'' @ uid"

definition thirty_days :: nat where
  "thirty_days = 30 * 24 * 60 * 60"

definition current_user :: "'a auth_env_scheme \<Rightarrow> string option" where
  "current_user env =
     (case currentUserId env of None \<Rightarrow> None | Some u \<Rightarrow> if u = [] then None else Some u)"

subsection \<open>\<open>GET /api/chatbot/conversations\<close>: list\<close>

record list_data =
  conversations :: "conversation list"
  total :: int
  hasMore :: bool

definition empty_page :: list_data where
  "empty_page = \<lparr>conversations = [], total = 0, hasMore = False\<rparr>"

text \<open>
  The query parameters are given as \<open>parseInt\<close> reads them; \<open>None\<close> is a missing (or
  empty) parameter, for which the handler reads \<open>'20'\<close> and \<open>'0'\<close>.
\<close>

definition conversations_GET ::
  "conv_env \<Rightarrow> redis_handle \<Rightarrow> int option \<Rightarrow> int option
     \<Rightarrow> (http_error + list_data) \<times> redis_handle" where
  "conversations_GET env redis limit_param offset_param =
     (case current_user env of
        None \<Rightarrow> (Inl unauthorized, redis)
      | Some uid \<Rightarrow>
          (let limit = min (case limit_param of None \<Rightarrow> 20 | Some l \<Rightarrow> l) 100;
               offset = max (case offset_param of None \<Rightarrow> 0 | Some off \<Rightarrow> off) 0
           in case redis of
                NoRedis \<Rightarrow> (Inr empty_page, redis)
              | Down \<Rightarrow> (Inl (failure 500 ''Failed to retrieve conversations''), redis)
              | Up db \<Rightarrow>
                  (let conversationIds =
                         redis_zrevrange db (nowMs env) (getUserConversationsKey uid)
                           offset (offset + limit - 1)
                   in if conversationIds = [] then (Inr empty_page, redis)
                      else
                        (let found = map (\<lambda>i. redis_get db (nowMs env)
                                            (getConversationKey uid i)) conversationIds;
                             validConversations = List.map_filter (\<lambda>x. x) found;
                             n = int (redis_zcard db (nowMs env) (getUserConversationsKey uid))
                         in (Inr \<lparr>conversations = validConversations, total = n,
                                   hasMore = (offset + limit < n)\<rparr>, redis)))))"

subsection \<open>\<open>POST /api/chatbot/conversations\<close>: create\<close>

record create_body =
  cb_title :: string
  cb_model :: "string option"
  cb_systemPrompt :: "string option"

definition title_ok :: "string \<Rightarrow> bool" where
  "title_ok t = (1 \<le> length t \<and> length t \<le> 100)"

definition new_conversation :: "conv_env \<Rightarrow> string \<Rightarrow> create_body \<Rightarrow> conversation" where
  "new_conversation env uid b =
     \<lparr>conv_id = nanoid env,
      title = cb_title b,
      messages =
        (if truthy (cb_systemPrompt b) then
           [\<lparr>role = System, content = or_else (cb_systemPrompt b) [], timestamp = nowIso env\<rparr>]
         else []),
      model = (case cb_model b of None \<Rightarrow> ''gpt-4o-mini'' | Some m \<Rightarrow> m),
      createdAt = nowIso env,
      updatedAt = nowIso env,
      userId = uid\<rparr>"

definition conversations_POST ::
  "conv_env \<Rightarrow> redis_handle \<Rightarrow> create_body option
     \<Rightarrow> (http_error + conversation) \<times> redis_handle" where
  "conversations_POST env redis body =
     (case current_user env of
        None \<Rightarrow> (Inl unauthorized, redis)
      | Some uid \<Rightarrow>
          (case body of
             None \<Rightarrow> (Inl (failure 500 ''Failed to create conversation''), redis)
           | Some b \<Rightarrow>
               if \<not> title_ok (cb_title b) then (Inl (invalid_request [''title'']), redis)
               else
                 (let conversation = new_conversation env uid b
                  in case redis of
                       NoRedis \<Rightarrow> (Inr conversation, redis)
                     | Down \<Rightarrow> (Inl (failure 500 ''Failed to create conversation''), redis)
                     | Up db \<Rightarrow>
                         (let db1 = redis_set db (nowMs env)
                                      (getConversationKey uid (conv_id conversation))
                                      conversation thirty_days;
                              db2 = redis_zadd db1 (nowMs env) (getUserConversationsKey uid)
                                      (nowMs env) (conv_id conversation);
                              db3 = redis_expire db2 (nowMs env) (getUserConversationsKey uid)
                                      thirty_days
                          in (Inr conversation, Up db3)))))"

subsection \<open>\<open>DELETE /api/chatbot/conversations?ids=...\<close>: delete many\<close>

text \<open>\<open>String.prototype.split(',')\<close>; the empty string splits into one empty piece.\<close>

fun split_comma :: "string \<Rightarrow> string list" where
  "split_comma [] = [[]]"
| "split_comma (c # s) =
     (if c = CHR '','' then [] # split_comma s
      else (case split_comma s of [] \<Rightarrow> [[c]] | x # xs \<Rightarrow> (c # x) # xs))"

text \<open>The loop over the ids: the index entry is removed only when the record was.\<close>

fun delete_loop :: "redis_db \<Rightarrow> nat \<Rightarrow> string \<Rightarrow> string list \<Rightarrow> nat \<Rightarrow> redis_db \<times> nat" where
  "delete_loop db now uid [] deletedCount = (db, deletedCount)"
| "delete_loop db now uid (conversationId # rest) deletedCount =
     (let (db1, deleted) = redis_del db now (getConversationKey uid conversationId)
      in if deleted \<noteq> 0 then
           delete_loop (redis_zrem db1 now (getUserConversationsKey uid) conversationId)
             now uid rest (deletedCount + 1)
         else delete_loop db1 now uid rest deletedCount)"

definition conversations_DELETE ::
  "conv_env \<Rightarrow> redis_handle \<Rightarrow> string option \<Rightarrow> (http_error + nat) \<times> redis_handle" where
  "conversations_DELETE env redis ids_param =
     (case current_user env of
        None \<Rightarrow> (Inl unauthorized, redis)
      | Some uid \<Rightarrow>
          (let conversationIds = (case ids_param of None \<Rightarrow> [] | Some p \<Rightarrow> split_comma p)
           in if conversationIds = [] then
                (Inl (failure 400 ''No conversation IDs provided''), redis)
              else
                (case redis of
                   NoRedis \<Rightarrow> (Inr 0, redis)
                 | Down \<Rightarrow> (Inl (failure 500 ''Failed to delete conversations''), redis)
                 | Up db \<Rightarrow>
                     (let (db1, deletedCount) = delete_loop db (nowMs env) uid conversationIds 0
                      in (Inr deletedCount, Up db1)))))"

subsection \<open>The helpers of the single-conversation endpoints\<close>

text \<open>A call either returns or throws (a store command rejected).\<close>

datatype 'a io = Threw | Returned 'a

definition getConversation ::
  "redis_handle \<Rightarrow> nat \<Rightarrow> string \<Rightarrow> string \<Rightarrow> conversation option io" where
  "getConversation redis now uid conversationId =
     (case redis of
        NoRedis \<Rightarrow> Returned None
      | Down \<Rightarrow> Threw
      | Up db \<Rightarrow> Returned (redis_get db now (getConversationKey uid conversationId)))"

text \<open>
  \<open>saveConversation\<close> writes under the key built from the \<open>id\<close> field of the object it
  is given, stamps \<open>updatedAt\<close> on that object (the caller sees the stamp), renews the
  record's expiry and sets the index score. It answers whether it saved.
\<close>

definition saveConversation ::
  "conv_env \<Rightarrow> redis_handle \<Rightarrow> string \<Rightarrow> conversation
     \<Rightarrow> (bool \<times> conversation \<times> redis_handle) io" where
  "saveConversation env redis uid conversation =
     (case redis of
        NoRedis \<Rightarrow> Returned (False, conversation, redis)
      | Down \<Rightarrow> Threw
      | Up db \<Rightarrow>
          (let stamped = conversation\<lparr>updatedAt := nowIso env\<rparr>;
               db1 = redis_set db (nowMs env) (getConversationKey uid (conv_id conversation))
                       stamped thirty_days;
               db2 = redis_zadd db1 (nowMs env) (getUserConversationsKey uid)
                       (nowMs env) (conv_id conversation)
           in Returned (True, stamped, Up db2)))"

subsection \<open>\<open>GET /api/chatbot/conversations/[id]\<close>\<close>

definition conversation_GET ::
  "conv_env \<Rightarrow> redis_handle \<Rightarrow> string \<Rightarrow> (http_error + conversation) \<times> redis_handle" where
  "conversation_GET env redis conversationId =
     (case current_user env of
        None \<Rightarrow> (Inl unauthorized, redis)
      | Some uid \<Rightarrow>
          (case getConversation redis (nowMs env) uid conversationId of
             Threw \<Rightarrow> (Inl (failure 500 ''Failed to retrieve conversation''), redis)
           | Returned None \<Rightarrow> (Inl not_found, redis)
           | Returned (Some conversation) \<Rightarrow> (Inr conversation, redis)))"

subsection \<open>\<open>PUT /api/chatbot/conversations/[id]\<close>: replace\<close>

record update_message =
  um_role :: string
  um_content :: string
  um_timestamp :: "string option"

record update_body =
  ub_title :: "string option"
  ub_messages :: "update_message list option"

definition update_issues :: "update_body \<Rightarrow> string list" where
  "update_issues b =
     (case ub_title b of
        None \<Rightarrow> []
      | Some t \<Rightarrow> if title_ok t then [] else [''title'']) @
     (case ub_messages b of
        None \<Rightarrow> []
      | Some ms \<Rightarrow>
          if list_all (\<lambda>m. parse_role (um_role m) \<noteq> None) ms then [] else [''messages.role''])"

definition stamp_message :: "conv_env \<Rightarrow> update_message \<Rightarrow> message" where
  "stamp_message env m =
     \<lparr>role = (case parse_role (um_role m) of Some r \<Rightarrow> r | None \<Rightarrow> User),
      content = um_content m,
      timestamp = or_else (um_timestamp m) (nowIso env)\<rparr>"

definition apply_update :: "conv_env \<Rightarrow> update_body \<Rightarrow> conversation \<Rightarrow> conversation" where
  "apply_update env b conversation =
     (let c1 = (case ub_title b of None \<Rightarrow> conversation | Some t \<Rightarrow> conversation\<lparr>title := t\<rparr>)
      in case ub_messages b of
           None \<Rightarrow> c1
         | Some ms \<Rightarrow> c1\<lparr>messages := map (stamp_message env) ms\<rparr>)"

definition conversation_PUT ::
  "conv_env \<Rightarrow> redis_handle \<Rightarrow> string \<Rightarrow> update_body option
     \<Rightarrow> (http_error + conversation) \<times> redis_handle" where
  "conversation_PUT env redis conversationId body =
     (case current_user env of
        None \<Rightarrow> (Inl unauthorized, redis)
      | Some uid \<Rightarrow>
          (case body of
             None \<Rightarrow> (Inl (failure 500 ''Failed to update conversation''), redis)
           | Some b \<Rightarrow>
               if update_issues b \<noteq> [] then (Inl (invalid_request (update_issues b)), redis)
               else
                 (case getConversation redis (nowMs env) uid conversationId of
                    Threw \<Rightarrow> (Inl (failure 500 ''Failed to update conversation''), redis)
                  | Returned None \<Rightarrow> (Inl not_found, redis)
                  | Returned (Some conversation) \<Rightarrow>
                      (case saveConversation env redis uid (apply_update env b conversation) of
                         Threw \<Rightarrow> (Inl (failure 500 ''Failed to update conversation''), redis)
                       | Returned (saved, stamped, redis') \<Rightarrow>
                           if \<not> saved then
                             (Inl (failure 500 ''Failed to save conversation''), redis')
                           else (Inr stamped, redis')))))"

subsection \<open>\<open>DELETE /api/chatbot/conversations/[id]\<close>\<close>

definition conversation_DELETE ::
  "conv_env \<Rightarrow> redis_handle \<Rightarrow> string \<Rightarrow> (http_error + bool) \<times> redis_handle" where
  "conversation_DELETE env redis conversationId =
     (case current_user env of
        None \<Rightarrow> (Inl unauthorized, redis)
      | Some uid \<Rightarrow>
          (case redis of
             NoRedis \<Rightarrow> (Inr False, redis)
           | Down \<Rightarrow> (Inl (failure 500 ''Failed to delete conversation''), redis)
           | Up db \<Rightarrow>
               (case getConversation redis (nowMs env) uid conversationId of
                  Threw \<Rightarrow> (Inl (failure 500 ''Failed to delete conversation''), redis)
                | Returned None \<Rightarrow> (Inl not_found, redis)
                | Returned (Some conversation) \<Rightarrow>
                    (let (db1, deleted) =
                           redis_del db (nowMs env) (getConversationKey uid conversationId);
                         db2 = (if deleted \<noteq> 0 then
                                  redis_zrem db1 (nowMs env) (getUserConversationsKey uid)
                                    conversationId
                                else db1)
                     in (Inr (0 < deleted), Up db2)))))"

subsection \<open>\<open>PATCH /api/chatbot/conversations/[id]\<close>: append one message\<close>

record add_message_body =
  am_role :: string
  am_content :: string

definition add_role :: "string \<Rightarrow> role option" where
  "add_role s =
     (if s = ''user'' then Some User else if s = ''assistant'' then Some Assistant else None)"

record appended =
  app_conversation :: conversation
  addedMessage :: message

definition conversation_PATCH ::
  "conv_env \<Rightarrow> redis_handle \<Rightarrow> string \<Rightarrow> add_message_body option
     \<Rightarrow> (http_error + appended) \<times> redis_handle" where
  "conversation_PATCH env redis conversationId body =
     (case current_user env of
        None \<Rightarrow> (Inl unauthorized, redis)
      | Some uid \<Rightarrow>
          (case body of
             None \<Rightarrow> (Inl (failure 500 ''Failed to add message''), redis)
           | Some b \<Rightarrow>
               (case add_role (am_role b) of
                  None \<Rightarrow> (Inl (invalid_request [''role'']), redis)
                | Some r \<Rightarrow>
                    (case getConversation redis (nowMs env) uid conversationId of
                       Threw \<Rightarrow> (Inl (failure 500 ''Failed to add message''), redis)
                     | Returned None \<Rightarrow> (Inl not_found, redis)
                     | Returned (Some conversation) \<Rightarrow>
                         (let newMessage =
                                \<lparr>role = r, content = am_content b, timestamp = nowIso env\<rparr>;
                              pushed = conversation\<lparr>messages := messages conversation @ [newMessage]\<rparr>
                          in case saveConversation env redis uid pushed of
                               Threw \<Rightarrow> (Inl (failure 500 ''Failed to add message''), redis)
                             | Returned (saved, stamped, redis') \<Rightarrow>
                                 if \<not> saved then
                                   (Inl (failure 500 ''Failed to save message''), redis')
                                 else (Inr \<lparr>app_conversation = stamped,
                                            addedMessage = newMessage\<rparr>, redis'))))))"

section \<open>Notions used to state the properties\<close>

subsection \<open>Reading a stream of events\<close>

definition event_conversationId :: "stream_event \<Rightarrow> string option" where
  "event_conversationId e =
     (case e of TextChunk _ c \<Rightarrow> c | Finished c _ _ \<Rightarrow> c | Error c _ \<Rightarrow> c)"

fun is_chunk :: "stream_event \<Rightarrow> bool" where
  "is_chunk (TextChunk _ _) = True"
| "is_chunk (Finished _ _ _) = False"
| "is_chunk (Error _ _) = False"

definition stream_events :: "chat_response \<Rightarrow> stream_event list" where
  "stream_events r = (case r of DataStream evs \<Rightarrow> evs | _ \<Rightarrow> [])"

subsection \<open>Concrete requests\<close>

definition example_usage :: usage where
  "example_usage = \<lparr>promptTokens = 12, completionTokens = 3, totalTokens = 15\<rparr>"

definition example_chat_env :: "string option \<Rightarrow> backend_run \<Rightarrow> chat_env" where
  "example_chat_env uid run =
     \<lparr>currentUserId = uid, selectedModelCookie = NoCookie, streamText = (\<lambda>_. run)\<rparr>"

definition example_chat_body :: "raw_message list \<Rightarrow> bool \<Rightarrow> chat_body" where
  "example_chat_body ms s =
     \<lparr>body_messages = ms, body_conversationId = Some ''c1'', body_model = None,
      body_temperature = None, body_maxTokens = None, body_stream = Some s,
      body_systemPrompt = None\<rparr>"

definition hello :: "raw_message list" where
  "hello = [\<lparr>raw_role = ''user'', raw_content = ''Hello''\<rparr>]"

definition empty_db :: redis_db where
  "empty_db = \<lparr>strings = Map.empty, zsets = Map.empty\<rparr>"

definition example_env :: "string option \<Rightarrow> string \<Rightarrow> nat \<Rightarrow> conv_env" where
  "example_env uid fresh now =
     \<lparr>currentUserId = uid, nanoid = fresh, nowIso = ''2024-01-15T10:30:00.000Z'',
      nowMs = now\<rparr>"

definition example_create :: create_body where
  "example_create = \<lparr>cb_title = ''T'', cb_model = Some ''m'', cb_systemPrompt = None\<rparr>"

definition example_add :: add_message_body where
  "example_add = \<lparr>am_role = ''user'', am_content = ''hi''\<rparr>"

definition example_update :: update_body where
  "example_update = \<lparr>ub_title = Some ''T2'', ub_messages = None\<rparr>"

definition example_conv :: "string \<Rightarrow> conversation" where
  "example_conv i =
     \<lparr>conv_id = i, title = ''T'', messages = [], model = ''m'',
      createdAt = ''2024-01-15T10:30:00.000Z'', updatedAt = ''2024-01-15T10:30:00.000Z'',
      userId = ''u1''\<rparr>"

text \<open>The store after user \<open>u1\<close> has created two conversations, one second apart.\<close>

definition two_conversations :: redis_handle where
  "two_conversations =
     snd (conversations_POST (example_env (Some ''u1'') ''b2'' 2000)
            (snd (conversations_POST (example_env (Some ''u1'') ''a1'' 1000) (Up empty_db)
                    (Some example_create)))
            (Some example_create))"

definition two_db :: redis_db where
  "two_db =
     \<lparr>strings = [''conversation:u1:a1'' \<mapsto> (example_conv ''a1'', 2592001000),
                 ''conversation:u1:b2'' \<mapsto> (example_conv ''b2'', 2592002000)],
      zsets = [''conversations:u1'' \<mapsto>
                 \<lparr>members = [(''b2'', 2000), (''a1'', 1000)], zexpires = Some 2592002000\<rparr>]\<rparr>"

subsection \<open>Sequences of store operations\<close>

datatype store_op =
    Create "create_body option"
  | Append string "add_message_body option"
  | Replace string "update_body option"
  | Delete string
  | DeleteMany "string option"
  | Get string
  | List "int option" "int option"

fun run_op :: "conv_env \<Rightarrow> redis_handle \<Rightarrow> store_op \<Rightarrow> redis_handle" where
  "run_op env redis (Create b) = snd (conversations_POST env redis b)"
| "run_op env redis (Append c b) = snd (conversation_PATCH env redis c b)"
| "run_op env redis (Replace c b) = snd (conversation_PUT env redis c b)"
| "run_op env redis (Delete c) = snd (conversation_DELETE env redis c)"
| "run_op env redis (DeleteMany p) = snd (conversations_DELETE env redis p)"
| "run_op env redis (Get c) = snd (conversation_GET env redis c)"
| "run_op env redis (List l off) = snd (conversations_GET env redis l off)"

fun run_ops :: "redis_handle \<Rightarrow> (conv_env \<times> store_op) list \<Rightarrow> redis_handle" where
  "run_ops redis [] = redis"
| "run_ops redis (step # rest) = run_ops (run_op (fst step) redis (snd step)) rest"

subsection \<open>Index and records in lockstep\<close>

definition record_exists :: "redis_handle \<Rightarrow> nat \<Rightarrow> string \<Rightarrow> string \<Rightarrow> bool" where
  "record_exists redis now uid c =
     (case redis of
        Up db \<Rightarrow> redis_get db now (getConversationKey uid c) \<noteq> None
      | _ \<Rightarrow> False)"

definition in_index :: "redis_handle \<Rightarrow> nat \<Rightarrow> string \<Rightarrow> string \<Rightarrow> bool" where
  "in_index redis now uid c =
     (case redis of
        Up db \<Rightarrow> c \<in> fst ` set (zmembers db now (getUserConversationsKey uid))
      | _ \<Rightarrow> False)"

definition zscore :: "redis_db \<Rightarrow> nat \<Rightarrow> string \<Rightarrow> string \<Rightarrow> nat option" where
  "zscore db now k member = map_of (zmembers db now k) member"

text \<open>The score the index of a user holds for a conversation.\<close>

definition index_score :: "redis_handle \<Rightarrow> nat \<Rightarrow> string \<Rightarrow> string \<Rightarrow> nat option" where
  "index_score redis now uid c =
     (case redis of
        Up db \<Rightarrow> zscore db now (getUserConversationsKey uid) c
      | _ \<Rightarrow> None)"

text \<open>
  Keys are built by joining with colons, so two users own disjoint keys when their ids
  hold no colon.
\<close>

definition colon_free :: "string \<Rightarrow> bool" where
  "colon_free u = (CHR '':'' \<notin> set u)"

definition lockstep :: "redis_handle \<Rightarrow> nat \<Rightarrow> bool" where
  "lockstep redis now =
     (\<forall>uid c. colon_free uid \<longrightarrow> in_index redis now uid c = record_exists redis now uid c)"

text \<open>No key of the store expires at or before the instant \<open>T\<close>.\<close>

definition fresh_until :: "nat \<Rightarrow> redis_db \<Rightarrow> bool" where
  "fresh_until T db =
     ((\<forall>k v e. strings db k = Some (v, e) \<longrightarrow> T < e) \<and>
      (\<forall>k z e. zsets db k = Some z \<longrightarrow> zexpires z = Some e \<longrightarrow> T < e))"

text \<open>
  A step of a sequence is in the window \<open>[t0, T]\<close> when it is made for a user with a
  colon-free id at an instant of the window.
\<close>

definition in_window :: "nat \<Rightarrow> nat \<Rightarrow> conv_env \<times> store_op \<Rightarrow> bool" where
  "in_window t0 T step =
     (case current_user (fst step) of
        None \<Rightarrow> True
      | Some uid \<Rightarrow> colon_free uid \<and> t0 \<le> nowMs (fst step) \<and> nowMs (fst step) \<le> T)"

subsection \<open>The stored maps, read without regard to expiry\<close>

definition raw_index :: "redis_db \<Rightarrow> string \<Rightarrow> string set" where
  "raw_index db k = (case zsets db k of None \<Rightarrow> {} | Some z \<Rightarrow> fst ` set (members z))"

definition raw_lockstep :: "redis_db \<Rightarrow> bool" where
  "raw_lockstep db =
     (\<forall>uid c. colon_free uid \<longrightarrow>
        (c \<in> raw_index db (getUserConversationsKey uid))
          = (strings db (getConversationKey uid c) \<noteq> None))"

definition store_inv :: "nat \<Rightarrow> redis_db \<Rightarrow> bool" where
  "store_inv T db = (fresh_until T db \<and> raw_lockstep db)"

text \<open>The HTTP status of a conversation endpoint's answer.\<close>

definition response_status :: "(http_error + 'a) \<times> redis_handle \<Rightarrow> nat" where
  "response_status r = (case fst r of Inl e \<Rightarrow> status e | Inr _ \<Rightarrow> 200)"

text \<open>
  Every stored record sits under the key built from its own \<open>id\<close> field; a step of a
  sequence made for a user either leaves a string key as it was, removes it, or writes a
  record under that user's key for the record's own id.
\<close>

definition well_keyed :: "redis_db \<Rightarrow> bool" where
  "well_keyed db =
     (\<forall>uid c conv e. colon_free uid \<longrightarrow>
        strings db (getConversationKey uid c) = Some (conv, e) \<longrightarrow> conv_id conv = c)"

definition writes_own_keys :: "string \<Rightarrow> redis_db \<Rightarrow> redis_db \<Rightarrow> bool" where
  "writes_own_keys u db db' =
     (\<forall>k. strings db' k = strings db k \<or> strings db' k = None \<or>
          (\<exists>v e. k = getConversationKey u (conv_id v) \<and> strings db' k = Some (v, e)))"

definition colon_free_step :: "conv_env \<times> store_op \<Rightarrow> bool" where
  "colon_free_step step =
     (case current_user (fst step) of None \<Rightarrow> True | Some uid \<Rightarrow> colon_free uid)"

subsection \<open>Concrete sequences\<close>

text \<open>
  User \<open>u1\<close> creates a conversation, appends to it twenty days later and reads it on
  day 31 (instants in milliseconds).
\<close>

definition create_append_get :: "(conv_env \<times> store_op) list" where
  "create_append_get =
     [(example_env (Some ''u1'') ''a1'' 1000, Create (Some example_create)),
      (example_env (Some ''u1'') ''x'' 1728000000, Append ''a1'' (Some example_add)),
      (example_env (Some ''u1'') ''x'' 2678400000, Get ''a1'')]"

text \<open>
  User \<open>a:b\<close> creates the conversation \<open>c\<close>; user \<open>a\<close> then deletes the id \<open>b:c\<close>.
\<close>

definition delete_across_users :: "(conv_env \<times> store_op) list" where
  "delete_across_users =
     [(example_env (Some ''a:b'') ''c'' 1000, Create (Some example_create)),
      (example_env (Some ''a'') ''x'' 2000, Delete ''b:c'')]"

text \<open>User \<open>u1\<close> creates one conversation.\<close>

definition create_one :: "(conv_env \<times> store_op) list" where
  "create_one = [(example_env (Some ''u1'') ''a1'' 1000, Create (Some example_create))]"

section \<open>Properties of the model router\<close>

lemma getProvider_first_match: "getProvider m = resolve_spec m"
  by (simp add: getProvider_def resolve_spec_def matching_rules_def resolution_rules_def)

lemma getProvider_claude_haiku:
  "getProvider ''claude-3-haiku-20240307''
     = \<lparr>provider = anthropic, modelId = ''claude-3-haiku-20240307''\<rparr>"
  by (simp add: getProvider_def startsWith_def)

lemma getProvider_some_llama:
  "getProvider ''some-llama-model'' = \<lparr>provider = groq, modelId = ''some-llama-model''\<rparr>"
  by (simp add: getProvider_def startsWith_def)

text \<open>
  An identifier matched by several rules goes to the earliest one: \<open>claude-via-groq\<close>
  matches both the Anthropic prefix rule and the Groq substring rule.
\<close>

lemma matching_rules_priority:
  "map snd (matching_rules ''claude-via-groq'') = [anthropic, groq]"
  by (simp add: matching_rules_def resolution_rules_def startsWith_def)

lemma getProvider_priority:
  "getProvider ''claude-via-groq'' = \<lparr>provider = anthropic, modelId = ''claude-via-groq''\<rparr>"
  by (simp add: getProvider_def startsWith_def)

text \<open>
  Claim C3. \<open>getProvider\<close> is a total function of the identifier alone. It agrees with the
  ordered rule table read first-match-first: when no rule matches, the result is the
  OpenAI backend with the default model \<open>gpt-4o-mini\<close>; when rules match, the backend is
  that of the first matching rule and the identifier is passed on unchanged, even when a
  later rule matches too. \<open>claude-3-haiku-20240307\<close> goes to Anthropic and
  \<open>some-llama-model\<close> to Groq.
\<close>

theorem getProvider_rule_table:
  "getProvider m = resolve_spec m
   \<and> (matching_rules m = [] \<longrightarrow>
         getProvider m = \<lparr>provider = openai, modelId = ''gpt-4o-mini''\<rparr>)
   \<and> (\<forall>r rs. matching_rules m = r # rs \<longrightarrow>
         getProvider m = \<lparr>provider = snd r, modelId = m\<rparr>)
   \<and> getProvider ''claude-3-haiku-20240307''
         = \<lparr>provider = anthropic, modelId = ''claude-3-haiku-20240307''\<rparr>
   \<and> getProvider ''some-llama-model'' = \<lparr>provider = groq, modelId = ''some-llama-model''\<rparr>
   \<and> map snd (matching_rules ''claude-via-groq'') = [anthropic, groq]
   \<and> getProvider ''claude-via-groq'' = \<lparr>provider = anthropic, modelId = ''claude-via-groq''\<rparr>"
proof -
  have none: "matching_rules m = [] \<longrightarrow>
      getProvider m = \<lparr>provider = openai, modelId = ''gpt-4o-mini''\<rparr>"
    by (simp add: getProvider_first_match resolve_spec_def)
  have first: "\<forall>r rs. matching_rules m = r # rs \<longrightarrow>
      getProvider m = \<lparr>provider = snd r, modelId = m\<rparr>"
    by (simp add: getProvider_first_match resolve_spec_def)
  from none first show ?thesis
    using getProvider_first_match getProvider_claude_haiku getProvider_some_llama
      matching_rules_priority getProvider_priority
    by blast
qed

theorem getProvider_rule_table_witness:
  "matching_rules ''invalid-model'' = []
   \<and> getProvider ''invalid-model'' = \<lparr>provider = openai, modelId = ''gpt-4o-mini''\<rparr>
   \<and> map snd (matching_rules ''gpt-4o'') = [openai]
   \<and> getProvider ''gpt-4o'' = \<lparr>provider = openai, modelId = ''gpt-4o''\<rparr>"
proof -
  have a: "matching_rules ''invalid-model'' = []"
    by (simp add: matching_rules_def resolution_rules_def startsWith_def)
  have b: "matching_rules ''gpt-4o'' = [hd resolution_rules]"
    by (simp add: matching_rules_def resolution_rules_def startsWith_def)
  have c: "snd (hd resolution_rules) = openai"
    by (simp add: resolution_rules_def)
  from a getProvider_rule_table [of "''invalid-model''"]
  have d: "getProvider ''invalid-model'' = \<lparr>provider = openai, modelId = ''gpt-4o-mini''\<rparr>"
    by blast
  from b getProvider_rule_table [of "''gpt-4o''"]
  have "getProvider ''gpt-4o'' = \<lparr>provider = snd (hd resolution_rules), modelId = ''gpt-4o''\<rparr>"
    by blast
  with a b c d show ?thesis by simp
qed

section \<open>Properties of the chat completion endpoint\<close>

subsection \<open>The event sequence of the streaming branch\<close>

text \<open>Whatever the backend would deliver, the stream of the answer is the one error event.\<close>

lemma execute_error: "execute c run = [Error c ''Failed to generate response'']"
  by (cases run) simp_all

lemma valid_hello: "chat_issues (example_chat_body hello s) = []"
  by (simp add: chat_issues_def example_chat_body_def hello_def role_ok_def parse_role_def)

text \<open>
  Claim C1, evaluated on a backend that would deliver two chunks and then fail
  (scenario D) and on one that would deliver two chunks and complete. In both cases the
  answer is the single \<open>Error\<close> event and no \<open>TextChunk\<close> event: the two chunks the claim
  asks for are not sent, and the completed run ends in \<open>Error\<close> where the claim asks for
  \<open>Finished\<close>.
\<close>

theorem stream_failure_after_two_chunks:
  "chatbot_POST (example_chat_env (Some ''u1'') (Streams [''Hel'', ''lo''] BackendFailed))
       NoRedis (Some (example_chat_body hello True))
     = (DataStream [Error (Some ''c1'') ''Failed to generate response''], NoRedis)
   \<and> chatbot_POST
         (example_chat_env (Some ''u1'') (Streams [''Hel'', ''lo''] (Completed example_usage Stop)))
         NoRedis (Some (example_chat_body hello True))
     = (DataStream [Error (Some ''c1'') ''Failed to generate response''], NoRedis)
   \<and> filter is_chunk
        (stream_events (fst (chatbot_POST
           (example_chat_env (Some ''u1'') (Streams [''Hel'', ''lo''] BackendFailed))
           NoRedis (Some (example_chat_body hello True))))) = []"
  using valid_hello [of True]
  by (simp add: chatbot_POST_def chatbot_handler_def ChatbotRequestSchema_parse_def Let_def
      example_chat_body_def stream_events_def execute_error)

subsection \<open>Validation and authentication\<close>

text \<open>
  Claim C4, evaluated on a request whose \<open>messages\<close> array is empty. The schema has no
  length constraint on the array, so the request passes validation; the handler calls
  \<open>streamText\<close> with the system message alone and answers the data stream, status 200,
  where the claim asks for status 400 and no generation.
\<close>

theorem empty_history_is_accepted:
  "chat_issues (example_chat_body [] True) = []
   \<and> chat_calls (chatbot_handler
         (example_chat_env (Some ''u1'') (Streams [''Hello''] (Completed example_usage Stop)))
         NoRedis (Some (example_chat_body [] True)))
       = [\<lparr>call_provider = openai, call_modelId = ''gpt-4o-mini'',
           call_messages = [\<lparr>msg_role = System, msg_content = SYSTEM_PROMPTS_default\<rparr>],
           call_temperature = 0.7, call_maxTokens = 2000\<rparr>]
   \<and> chat_status (fst (chatbot_POST
         (example_chat_env (Some ''u1'') (Streams [''Hello''] (Completed example_usage Stop)))
         NoRedis (Some (example_chat_body [] True)))) = Some 200"
proof -
  have ok: "chat_issues (example_chat_body [] True) = []"
    by (simp add: chat_issues_def example_chat_body_def)
  have g: "getProvider ''gpt-4o-mini'' = \<lparr>provider = openai, modelId = ''gpt-4o-mini''\<rparr>"
    by (simp add: getProvider_def startsWith_def)
  from ok g show ?thesis
    by (simp add: chatbot_POST_def chatbot_handler_def ChatbotRequestSchema_parse_def Let_def
        example_chat_env_def example_chat_body_def gen_call_of_def selectModel_def or_else_def
        truthy_def)
qed

text \<open>
  Every conversation endpoint answers 401 and leaves the store alone when there is no
  current user.
\<close>

lemma conversation_endpoints_unauthorized:
  assumes "current_user env = None"
  shows "conversations_GET env redis l off = (Inl unauthorized, redis)
    \<and> conversations_POST env redis cb = (Inl unauthorized, redis)
    \<and> conversations_DELETE env redis p = (Inl unauthorized, redis)
    \<and> conversation_GET env redis c = (Inl unauthorized, redis)
    \<and> conversation_PUT env redis c ub = (Inl unauthorized, redis)
    \<and> conversation_DELETE env redis c = (Inl unauthorized, redis)
    \<and> conversation_PATCH env redis c ab = (Inl unauthorized, redis)"
  using assms
  by (simp add: conversations_GET_def conversations_POST_def conversations_DELETE_def
      conversation_GET_def conversation_PUT_def conversation_DELETE_def conversation_PATCH_def)

text \<open>
  Claim C9, evaluated on a streaming chat request made with no current user. The chat
  handler reads the user id and never tests it: \<open>streamText\<close> is called with the request's
  messages and the answer is the data stream with status 200, where the claim asks for
  status 401 and no backend call. (The seven conversation endpoints do answer 401, see
  \<open>conversation_endpoints_unauthorized\<close>.)
\<close>

theorem chat_without_user_generates:
  "current_user (example_chat_env None (Streams [''Hello''] (Completed example_usage Stop))) = None
   \<and> chat_calls (chatbot_handler
         (example_chat_env None (Streams [''Hello''] (Completed example_usage Stop)))
         NoRedis (Some (example_chat_body hello True)))
       = [\<lparr>call_provider = openai, call_modelId = ''gpt-4o-mini'',
           call_messages = [\<lparr>msg_role = System, msg_content = SYSTEM_PROMPTS_default\<rparr>,
                            \<lparr>msg_role = User, msg_content = ''Hello''\<rparr>],
           call_temperature = 0.7, call_maxTokens = 2000\<rparr>]
   \<and> chat_status (fst (chatbot_POST
         (example_chat_env None (Streams [''Hello''] (Completed example_usage Stop)))
         NoRedis (Some (example_chat_body hello True)))) = Some 200"
proof -
  have g: "getProvider ''gpt-4o-mini'' = \<lparr>provider = openai, modelId = ''gpt-4o-mini''\<rparr>"
    by (simp add: getProvider_def startsWith_def)
  have m: "map to_core hello = [\<lparr>msg_role = User, msg_content = ''Hello''\<rparr>]"
    by (simp add: hello_def to_core_def parse_role_def)
  from valid_hello [of True] g m show ?thesis
    by (simp add: chatbot_POST_def chatbot_handler_def ChatbotRequestSchema_parse_def Let_def
        example_chat_env_def example_chat_body_def gen_call_of_def selectModel_def or_else_def
        truthy_def current_user_def)
qed

subsection \<open>Buffered generation\<close>

text \<open>
  Claim C5, evaluated on a non-streaming request against a backend that would deliver
  \<open>Hel\<close>, \<open>lo\<close> and complete, and against one that would fail after the two chunks. In
  both cases \<open>streamText\<close> is called and the handler never answers: it neither returns
  the content \<open>Hello\<close> with the usage, as the claim asks for the first, nor fails with the
  provider error (500), as the claim asks for the second. The streaming branch, for the
  same request, sends no \<open>TextChunk\<close> event whose content could be concatenated.
\<close>

theorem buffered_never_answers:
  "chatbot_POST
       (example_chat_env (Some ''u1'') (Streams [''Hel'', ''lo''] (Completed example_usage Stop)))
       NoRedis (Some (example_chat_body hello False))
     = (NeverAnswers, NoRedis)
   \<and> chatbot_POST (example_chat_env (Some ''u1'') (Streams [''Hel'', ''lo''] BackendFailed))
       NoRedis (Some (example_chat_body hello False))
     = (NeverAnswers, NoRedis)
   \<and> length (chat_calls (chatbot_handler
         (example_chat_env (Some ''u1'') (Streams [''Hel'', ''lo''] (Completed example_usage Stop)))
         NoRedis (Some (example_chat_body hello False)))) = 1
   \<and> filter is_chunk
        (stream_events (fst (chatbot_POST
           (example_chat_env (Some ''u1'') (Streams [''Hel'', ''lo''] (Completed example_usage Stop)))
           NoRedis (Some (example_chat_body hello True))))) = []"
  using valid_hello [of True] valid_hello [of False]
  by (simp add: chatbot_POST_def chatbot_handler_def ChatbotRequestSchema_parse_def Let_def
      example_chat_env_def example_chat_body_def stream_events_def)

subsection \<open>The chat endpoint and the store\<close>

lemma execute_conversationId: "list_all (\<lambda>e. event_conversationId e = c) (execute c run)"
  by (simp add: execute_error event_conversationId_def)

lemma buffered_no_success: "buffered c m run \<noteq> JsonSuccess r"
  by (cases run) simp_all

text \<open>
  Claim C10. Whatever the request and whatever the backend does, the store after a chat
  request is the store before it, also when the request names a conversation; the
  \<open>conversationId\<close> of the request is what every event of the stream carries and what the
  buffered answer carries.
\<close>

theorem chat_leaves_store_alone:
  "snd (chatbot_POST env redis body) = redis
   \<and> list_all (\<lambda>e. event_conversationId e = Option.bind body body_conversationId)
        (stream_events (fst (chatbot_POST env redis body)))
   \<and> (case fst (chatbot_POST env redis body) of
         JsonSuccess r \<Rightarrow> resp_conversationId r = Option.bind body body_conversationId
       | _ \<Rightarrow> True)"
proof -
  have a: "snd (chatbot_POST env redis body) = redis"
    by (simp add: chatbot_POST_def chatbot_handler_def Let_def split: option.splits sum.splits)
  have b: "list_all (\<lambda>e. event_conversationId e = Option.bind body body_conversationId)
        (stream_events (fst (chatbot_POST env redis body)))"
  proof (cases body)
    case None
    then show ?thesis by (simp add: chatbot_POST_def chatbot_handler_def stream_events_def)
  next
    case (Some b)
    show ?thesis
    proof (cases "chat_issues b = []")
      case False
      with Some show ?thesis
        by (simp add: chatbot_POST_def chatbot_handler_def ChatbotRequestSchema_parse_def
            stream_events_def)
    next
      case True
      show ?thesis
      proof (cases "case body_stream b of None \<Rightarrow> True | Some s \<Rightarrow> s")
        case True
        with Some \<open>chat_issues b = []\<close> show ?thesis
          by (simp add: chatbot_POST_def chatbot_handler_def ChatbotRequestSchema_parse_def
              stream_events_def Let_def execute_conversationId)
      next
        case False
        have "stream_events (buffered c m run) = []" for c m run
          by (cases run) (simp_all add: stream_events_def)
        with False Some \<open>chat_issues b = []\<close> show ?thesis
          by (simp add: chatbot_POST_def chatbot_handler_def ChatbotRequestSchema_parse_def
              Let_def)
      qed
    qed
  qed
  have c: "(case fst (chatbot_POST env redis body) of
         JsonSuccess r \<Rightarrow> resp_conversationId r = Option.bind body body_conversationId
       | _ \<Rightarrow> True)"
  proof (cases "fst (chatbot_POST env redis body)")
    case (JsonSuccess r)
    then have False
      using buffered_no_success
      by (auto simp: chatbot_POST_def chatbot_handler_def ChatbotRequestSchema_parse_def Let_def
          split: option.splits sum.splits if_splits)
    then show ?thesis ..
  qed simp_all
  from a b c show ?thesis by blast
qed

theorem chat_leaves_store_alone_witness:
  "snd (chatbot_POST (example_chat_env (Some ''u1'') (Streams [''Hello''] (Completed example_usage Stop)))
         two_conversations (Some (example_chat_body hello True))) = two_conversations
   \<and> list_all (\<lambda>e. event_conversationId e = Some ''c1'')
        (stream_events (fst (chatbot_POST
           (example_chat_env (Some ''u1'') (Streams [''Hello''] (Completed example_usage Stop)))
           two_conversations (Some (example_chat_body hello True)))))"
  using chat_leaves_store_alone [of
      "example_chat_env (Some ''u1'') (Streams [''Hello''] (Completed example_usage Stop))"
      two_conversations "Some (example_chat_body hello True)"]
  by (simp add: example_chat_body_def)

section \<open>Properties of the conversation store\<close>

subsection \<open>Keys, commands and expiry\<close>

lemma fresh_strD: "fresh_until T db \<Longrightarrow> strings db k = Some (v, e) \<Longrightarrow> T < e"
  unfolding fresh_until_def by blast

lemma fresh_zsetD: "fresh_until T db \<Longrightarrow> zsets db k = Some z \<Longrightarrow> zexpires z = Some e \<Longrightarrow> T < e"
  unfolding fresh_until_def by blast

lemma fresh_get: "fresh_until T db \<Longrightarrow> now \<le> T \<Longrightarrow> redis_get db now k = map_option fst (strings db k)"
  by (auto simp: redis_get_def split: option.splits dest: fresh_strD)

lemma fresh_live_zset: "fresh_until T db \<Longrightarrow> now \<le> T \<Longrightarrow> live_zset db now k = zsets db k"
  by (auto simp: live_zset_def split: option.splits dest: fresh_zsetD)

lemma fresh_index: "fresh_until T db \<Longrightarrow> now \<le> T \<Longrightarrow> fst ` set (zmembers db now k) = raw_index db k"
  by (simp add: zmembers_def raw_index_def fresh_live_zset split: option.splits)

lemma user_key_inj [simp]: "(getUserConversationsKey u = getUserConversationsKey u') = (u = u')"
  by (simp add: getUserConversationsKey_def)

lemma takeWhile_upto: "c \<notin> set u \<Longrightarrow> takeWhile (\<lambda>x. x \<noteq> c) (u @ c # r) = u"
  by (induction u) auto

lemma colon_prefix:
  assumes "colon_free u" "colon_free u'" "u @ CHR '':'' # c = u' @ CHR '':'' # c'"
  shows "u = u' \<and> c = c'"
proof -
  have "takeWhile (\<lambda>x. x \<noteq> CHR '':'') (u @ CHR '':'' # c) = u"
    using assms(1) by (simp add: colon_free_def takeWhile_upto)
  moreover have "takeWhile (\<lambda>x. x \<noteq> CHR '':'') (u' @ CHR '':'' # c') = u'"
    using assms(2) by (simp add: colon_free_def takeWhile_upto)
  ultimately have "u = u'" using assms(3) by simp
  with assms(3) show ?thesis by simp
qed

lemma conv_key_inj:
  "colon_free u \<Longrightarrow> colon_free u' \<Longrightarrow>
   (getConversationKey u c = getConversationKey u' c') = (u = u' \<and> c = c')"
  using colon_prefix [of u u' c c'] by (auto simp: getConversationKey_def)

text \<open>What each command does to the stored maps.\<close>

lemma set_strings [simp]:
  "strings (redis_set db now k v ex) = (strings db)(k \<mapsto> (v, now + ex * 1000))"
  by (simp add: redis_set_def)

lemma set_zsets [simp]: "zsets (redis_set db now k v ex) = zsets db"
  by (simp add: redis_set_def)

lemma del_strings [simp]: "strings (fst (redis_del db now k)) = (strings db)(k := None)"
  by (simp add: redis_del_def)

lemma del_zsets [simp]: "zsets (fst (redis_del db now k)) = zsets db"
  by (simp add: redis_del_def)

lemma zadd_strings [simp]: "strings (redis_zadd db now k s x) = strings db"
  by (simp add: redis_zadd_def)

lemma zrem_strings [simp]: "strings (redis_zrem db now k x) = strings db"
  by (simp add: redis_zrem_def Let_def)

lemma expire_strings [simp]: "strings (redis_expire db now k secs) = strings db"
  by (simp add: redis_expire_def split: option.splits)

lemma fst_set_moved:
  "insert x (fst ` set (filter (\<lambda>p. fst p \<noteq> x) ms)) = insert x (fst ` set ms)"
  by force

lemma fst_set_removed: "fst ` set (filter (\<lambda>p. fst p \<noteq> x) ms) = fst ` set ms - {x}"
  by force

lemma zadd_index:
  "raw_index (redis_zadd db now k s x) k'
     = (if k' = k then insert x (fst ` set (zmembers db now k)) else raw_index db k')"
  by (simp add: redis_zadd_def raw_index_def fst_set_moved del: set_filter)

lemma zrem_index:
  "raw_index (redis_zrem db now k x) k'
     = (if k' = k then fst ` set (zmembers db now k) - {x} else raw_index db k')"
proof -
  have "filter (\<lambda>p. fst p \<noteq> x) (zmembers db now k) = [] \<Longrightarrow> fst ` set (zmembers db now k) - {x} = {}"
    using fst_set_removed [of x "zmembers db now k"] by simp
  then show ?thesis
    by (simp add: redis_zrem_def raw_index_def Let_def fst_set_removed del: set_filter)
qed

lemma expire_index [simp]: "raw_index (redis_expire db now k secs) k' = raw_index db k'"
  by (auto simp: redis_expire_def raw_index_def live_zset_def split: option.splits if_splits)

lemma set_index [simp]: "raw_index (redis_set db now k v ex) k' = raw_index db k'"
  by (simp add: raw_index_def)

lemma del_index [simp]: "raw_index (fst (redis_del db now k)) k' = raw_index db k'"
  by (simp add: raw_index_def)

lemma set_zmembers [simp]: "zmembers (redis_set db now k v ex) now' k' = zmembers db now' k'"
  by (simp add: zmembers_def live_zset_def)

lemma del_zmembers [simp]: "zmembers (fst (redis_del db now k)) now' k' = zmembers db now' k'"
  by (simp add: zmembers_def live_zset_def)

text \<open>Freshness is kept by every command issued inside the window.\<close>

lemma set_fresh:
  "fresh_until T db \<Longrightarrow> T < now + ex * 1000 \<Longrightarrow> fresh_until T (redis_set db now k v ex)"
  by (auto simp: fresh_until_def redis_set_def)

lemma del_fresh: "fresh_until T db \<Longrightarrow> fresh_until T (fst (redis_del db now k))"
  by (auto simp: fresh_until_def redis_del_def split: if_splits)

lemma zttl_fresh: "fresh_until T db \<Longrightarrow> zttl db now k = Some e \<Longrightarrow> T < e"
  by (auto simp: zttl_def live_zset_def split: option.splits if_splits dest: fresh_zsetD)

lemma zadd_fresh: "fresh_until T db \<Longrightarrow> fresh_until T (redis_zadd db now k s x)"
  unfolding fresh_until_def [of T "redis_zadd db now k s x"]
  by (auto simp: redis_zadd_def split: if_splits dest: fresh_strD fresh_zsetD zttl_fresh)

lemma zrem_fresh: "fresh_until T db \<Longrightarrow> fresh_until T (redis_zrem db now k x)"
  unfolding fresh_until_def [of T "redis_zrem db now k x"]
  by (auto simp: redis_zrem_def Let_def split: if_splits dest: fresh_strD fresh_zsetD zttl_fresh)

lemma expire_fresh:
  "fresh_until T db \<Longrightarrow> T < now + secs * 1000 \<Longrightarrow> fresh_until T (redis_expire db now k secs)"
  unfolding fresh_until_def [of T "redis_expire db now k secs"]
  by (auto simp: redis_expire_def split: if_splits option.splits dest: fresh_strD fresh_zsetD)

text \<open>Writing a record together with its index entry; removing both.\<close>

lemma put_inv:
  assumes "store_inv T db" "now \<le> T" "T < now + thirty_days * 1000" "colon_free u"
  shows "store_inv T (redis_zadd (redis_set db now (getConversationKey u x) v thirty_days)
            now (getUserConversationsKey u) s x)"
proof -
  have f0: "fresh_until T db" and l0: "raw_lockstep db"
    using assms(1) by (simp_all add: store_inv_def)
  have f1: "fresh_until T (redis_set db now (getConversationKey u x) v thirty_days)"
    using f0 assms(3) by (rule set_fresh)
  have "raw_lockstep (redis_zadd (redis_set db now (getConversationKey u x) v thirty_days)
            now (getUserConversationsKey u) s x)"
    unfolding raw_lockstep_def
  proof (intro allI impI)
    fix uid c assume cf: "colon_free uid"
    from l0 cf have base: "(c \<in> raw_index db (getUserConversationsKey uid))
          = (strings db (getConversationKey uid c) \<noteq> None)"
      by (simp add: raw_lockstep_def)
    show "(c \<in> raw_index (redis_zadd (redis_set db now (getConversationKey u x) v thirty_days)
            now (getUserConversationsKey u) s x) (getUserConversationsKey uid))
          = (strings (redis_zadd (redis_set db now (getConversationKey u x) v thirty_days)
            now (getUserConversationsKey u) s x) (getConversationKey uid c) \<noteq> None)"
      using base conv_key_inj [OF cf assms(4), of c x] fresh_index [OF f0 assms(2)]
      by (auto simp: zadd_index)
  qed
  with zadd_fresh [OF f1] show ?thesis by (simp add: store_inv_def)
qed

lemma expire_inv:
  assumes "store_inv T db" "T < now + thirty_days * 1000"
  shows "store_inv T (redis_expire db now k thirty_days)"
  using assms expire_fresh [of T db now thirty_days k]
  by (simp add: store_inv_def raw_lockstep_def)

lemma remove_inv:
  assumes "store_inv T db" "now \<le> T" "colon_free u"
  shows "store_inv T (redis_zrem (fst (redis_del db now (getConversationKey u x)))
            now (getUserConversationsKey u) x)"
proof -
  have f0: "fresh_until T db" and l0: "raw_lockstep db"
    using assms(1) by (simp_all add: store_inv_def)
  have f1: "fresh_until T (fst (redis_del db now (getConversationKey u x)))"
    using f0 by (rule del_fresh)
  have "raw_lockstep (redis_zrem (fst (redis_del db now (getConversationKey u x)))
            now (getUserConversationsKey u) x)"
    unfolding raw_lockstep_def
  proof (intro allI impI)
    fix uid c assume cf: "colon_free uid"
    from l0 cf have base: "(c \<in> raw_index db (getUserConversationsKey uid))
          = (strings db (getConversationKey uid c) \<noteq> None)"
      by (simp add: raw_lockstep_def)
    show "(c \<in> raw_index (redis_zrem (fst (redis_del db now (getConversationKey u x)))
            now (getUserConversationsKey u) x) (getUserConversationsKey uid))
          = (strings (redis_zrem (fst (redis_del db now (getConversationKey u x)))
            now (getUserConversationsKey u) x) (getConversationKey uid c) \<noteq> None)"
      using base conv_key_inj [OF cf assms(3), of c x] fresh_index [OF f0 assms(2)]
      by (auto simp: zrem_index)
  qed
  with zrem_fresh [OF f1] show ?thesis by (simp add: store_inv_def)
qed

lemma del_absent:
  assumes "fresh_until T db" "now \<le> T" "snd (redis_del db now k) = 0"
  shows "fst (redis_del db now k) = db"
proof -
  have "strings db k = None"
    using assms by (auto simp: redis_del_def fresh_get split: option.splits)
  then have "(strings db)(k := None) = strings db" by (simp add: fun_upd_idem)
  then show ?thesis by (simp add: redis_del_def)
qed


text \<open>Each handler keeps the invariant.\<close>

lemma save_inv:
  assumes "store_inv T db" "nowMs env \<le> T" "T < nowMs env + thirty_days * 1000" "colon_free u"
  shows "\<exists>stamped db'. saveConversation env (Up db) u conv = Returned (True, stamped, Up db')
            \<and> store_inv T db'"
  using put_inv [OF assms]
  by (simp add: saveConversation_def Let_def)

lemma create_inv:
  assumes "store_inv T db" "nowMs env \<le> T" "T < nowMs env + thirty_days * 1000"
    "current_user env = Some u" "colon_free u"
  shows "\<exists>db'. snd (conversations_POST env (Up db) body) = Up db' \<and> store_inv T db'"
proof (cases body)
  case None
  then show ?thesis using assms by (simp add: conversations_POST_def)
next
  case (Some b)
  show ?thesis
  proof (cases "title_ok (cb_title b)")
    case False
    then show ?thesis using Some assms by (simp add: conversations_POST_def)
  next
    case True
    have "store_inv T (redis_expire
            (redis_zadd (redis_set db (nowMs env)
                 (getConversationKey u (conv_id (new_conversation env u b)))
                 (new_conversation env u b) thirty_days)
               (nowMs env) (getUserConversationsKey u) (nowMs env)
               (conv_id (new_conversation env u b)))
            (nowMs env) (getUserConversationsKey u) thirty_days)"
      using put_inv [OF assms(1,2,3,5)] assms(3) by (rule expire_inv)
    then show ?thesis using Some True assms(4)
      by (simp add: conversations_POST_def Let_def)
  qed
qed

lemma patch_inv:
  assumes "store_inv T db" "nowMs env \<le> T" "T < nowMs env + thirty_days * 1000"
    "current_user env = Some u" "colon_free u"
  shows "\<exists>db'. snd (conversation_PATCH env (Up db) c body) = Up db' \<and> store_inv T db'"
proof -
  have sv: "\<And>conv. \<exists>stamped db'. saveConversation env (Up db) u conv = Returned (True, stamped, Up db')
            \<and> store_inv T db'"
    using save_inv [OF assms(1,2,3,5)] by blast
  show ?thesis
  proof (cases body)
    case None
    then show ?thesis using assms by (simp add: conversation_PATCH_def)
  next
    case (Some b)
    show ?thesis
    proof (cases "add_role (am_role b)")
      case None
      then show ?thesis using Some assms by (simp add: conversation_PATCH_def)
    next
      case (Some r)
      show ?thesis
      proof (cases "redis_get db (nowMs env) (getConversationKey u c)")
        case None
        then show ?thesis using Some \<open>body = Some b\<close> assms
          by (simp add: conversation_PATCH_def getConversation_def)
      next
        case (Some conv)
        obtain stamped db' where
          "saveConversation env (Up db) u
             (conv\<lparr>messages := messages conv @
                [\<lparr>role = r, content = am_content b, timestamp = nowIso env\<rparr>]\<rparr>)
           = Returned (True, stamped, Up db')" "store_inv T db'"
          using sv by blast
        then show ?thesis using Some \<open>add_role (am_role b) = Some r\<close> \<open>body = Some b\<close> assms(4)
          by (simp add: conversation_PATCH_def getConversation_def Let_def)
      qed
    qed
  qed
qed

lemma put_handler_inv:
  assumes "store_inv T db" "nowMs env \<le> T" "T < nowMs env + thirty_days * 1000"
    "current_user env = Some u" "colon_free u"
  shows "\<exists>db'. snd (conversation_PUT env (Up db) c body) = Up db' \<and> store_inv T db'"
proof -
  have sv: "\<And>conv. \<exists>stamped db'. saveConversation env (Up db) u conv = Returned (True, stamped, Up db')
            \<and> store_inv T db'"
    using save_inv [OF assms(1,2,3,5)] by blast
  show ?thesis
  proof (cases body)
    case None
    then show ?thesis using assms by (simp add: conversation_PUT_def)
  next
    case (Some b)
    show ?thesis
    proof (cases "update_issues b = []")
      case False
      then show ?thesis using Some assms by (simp add: conversation_PUT_def)
    next
      case True
      show ?thesis
      proof (cases "redis_get db (nowMs env) (getConversationKey u c)")
        case None
        then show ?thesis using True \<open>body = Some b\<close> assms
          by (simp add: conversation_PUT_def getConversation_def)
      next
        case (Some conv)
        obtain stamped db' where
          "saveConversation env (Up db) u (apply_update env b conv)
           = Returned (True, stamped, Up db')" "store_inv T db'"
          using sv by blast
        then show ?thesis using Some True \<open>body = Some b\<close> assms(4)
          by (simp add: conversation_PUT_def getConversation_def)
      qed
    qed
  qed
qed

lemma del_step_inv:
  assumes "store_inv T db" "now \<le> T" "colon_free u"
  shows "store_inv T
           (if snd (redis_del db now (getConversationKey u x)) \<noteq> 0 then
              redis_zrem (fst (redis_del db now (getConversationKey u x))) now
                (getUserConversationsKey u) x
            else fst (redis_del db now (getConversationKey u x)))"
proof (cases "snd (redis_del db now (getConversationKey u x)) = 0")
  case True
  have "fresh_until T db" using assms(1) by (simp add: store_inv_def)
  from del_absent [OF this assms(2) True] True assms(1) show ?thesis by simp
next
  case False
  with remove_inv [OF assms] show ?thesis by simp
qed

lemma delete_inv:
  assumes "store_inv T db" "nowMs env \<le> T" "current_user env = Some u" "colon_free u"
  shows "\<exists>db'. snd (conversation_DELETE env (Up db) c) = Up db' \<and> store_inv T db'"
proof (cases "redis_get db (nowMs env) (getConversationKey u c)")
  case None
  then show ?thesis using assms by (simp add: conversation_DELETE_def getConversation_def)
next
  case (Some conv)
  then show ?thesis
    using assms(3) del_step_inv [OF assms(1,2,4), of c]
    by (simp add: conversation_DELETE_def getConversation_def Let_def split_beta)
qed

lemma delete_loop_inv:
  assumes "now \<le> T" "colon_free u"
  shows "store_inv T db \<Longrightarrow> store_inv T (fst (delete_loop db now u ids n))"
proof (induction ids arbitrary: db n)
  case Nil
  then show ?case by simp
next
  case (Cons x ids)
  from del_step_inv [OF Cons.prems assms, of x] show ?case
    by (auto simp: split_beta Let_def intro: Cons.IH split: if_splits)
qed

lemma delete_many_inv:
  assumes "store_inv T db" "nowMs env \<le> T" "current_user env = Some u" "colon_free u"
  shows "\<exists>db'. snd (conversations_DELETE env (Up db) p) = Up db' \<and> store_inv T db'"
  using assms delete_loop_inv [OF assms(2,4,1)]
  by (simp add: conversations_DELETE_def Let_def split_beta)

lemma get_unchanged: "snd (conversation_GET env redis c) = redis"
  by (simp add: conversation_GET_def split: option.splits io.splits)

lemma list_unchanged: "snd (conversations_GET env redis l off) = redis"
  by (simp add: conversations_GET_def Let_def split: option.splits redis_handle.splits)

lemma unauthorized_unchanged:
  "current_user env = None \<Longrightarrow> run_op env redis op = redis"
  by (cases op)
    (simp_all add: conversations_POST_def conversation_PATCH_def conversation_PUT_def
       conversation_DELETE_def conversations_DELETE_def conversation_GET_def
       conversations_GET_def)

lemma run_op_inv:
  assumes "store_inv T db" "in_window t0 T (env, op)" "T < t0 + thirty_days * 1000"
  shows "\<exists>db'. run_op env (Up db) op = Up db' \<and> store_inv T db'"
proof (cases "current_user env")
  case None
  then show ?thesis using assms(1) by (simp add: unauthorized_unchanged)
next
  case (Some u)
  with assms(2) have cf: "colon_free u" and lo: "t0 \<le> nowMs env" and hi: "nowMs env \<le> T"
    by (simp_all add: in_window_def)
  from lo assms(3) have ttl: "T < nowMs env + thirty_days * 1000" by simp
  show ?thesis
  proof (cases op)
    case (Create b)
    then show ?thesis using create_inv [OF assms(1) hi ttl Some cf] by simp
  next
    case (Append c b)
    then show ?thesis using patch_inv [OF assms(1) hi ttl Some cf] by simp
  next
    case (Replace c b)
    then show ?thesis using put_handler_inv [OF assms(1) hi ttl Some cf] by simp
  next
    case (Delete c)
    then show ?thesis using delete_inv [OF assms(1) hi Some cf] by simp
  next
    case (DeleteMany p)
    then show ?thesis using delete_many_inv [OF assms(1) hi Some cf] by simp
  next
    case (Get c)
    then show ?thesis using assms(1) by (simp add: get_unchanged)
  next
    case (List l off)
    then show ?thesis using assms(1) by (simp add: list_unchanged)
  qed
qed

lemma run_ops_inv:
  assumes "T < t0 + thirty_days * 1000"
  shows "store_inv T db \<Longrightarrow> list_all (in_window t0 T) steps
     \<Longrightarrow> \<exists>db'. run_ops (Up db) steps = Up db' \<and> store_inv T db'"
proof (induction steps arbitrary: db)
  case Nil
  then show ?case by simp
next
  case (Cons step steps)
  from Cons.prems have "in_window t0 T (fst step, snd step)" by simp
  from run_op_inv [OF Cons.prems(1) this assms]
  obtain db1 where "run_op (fst step) (Up db) (snd step) = Up db1" "store_inv T db1" by blast
  with Cons.IH [of db1] Cons.prems(2) show ?case by simp
qed

lemma inv_lockstep:
  assumes "store_inv T db" "now \<le> T"
  shows "lockstep (Up db) now"
proof -
  have f0: "fresh_until T db" and l0: "raw_lockstep db"
    using assms(1) by (simp_all add: store_inv_def)
  show ?thesis
    using l0 by (simp add: lockstep_def in_index_def record_exists_def
        fresh_index [OF f0 assms(2)] fresh_get [OF f0 assms(2)] raw_lockstep_def)
qed

lemma lockstep_inv:
  assumes "fresh_until T db" "lockstep (Up db) T"
  shows "store_inv T db"
  using assms(2) fresh_index [OF assms(1) order_refl] fresh_get [OF assms(1) order_refl]
  by (simp add: store_inv_def assms(1) lockstep_def in_index_def record_exists_def raw_lockstep_def)

subsection \<open>The operations without a store\<close>

lemma split_comma_nonempty: "split_comma p \<noteq> []"
  by (cases p) (simp_all split: list.splits)

text \<open>
  Claim C2, amended. With no store configured, list answers the empty page, create answers
  the new conversation without storing it, delete answers \<open>deleted = false\<close> and delete-many
  answers a count of 0, all with success and the handle untouched; get, replace and
  append answer 404 (conversation not found). With a store that is configured and cannot
  be reached, each of the seven operations answers 500.
\<close>

theorem store_unconfigured_or_unreachable:
  assumes "current_user env = Some uid"
  shows "conversations_GET env NoRedis l off = (Inr empty_page, NoRedis)
    \<and> (title_ok (cb_title cb) \<longrightarrow>
          conversations_POST env NoRedis (Some cb) = (Inr (new_conversation env uid cb), NoRedis))
    \<and> conversation_DELETE env NoRedis c = (Inr False, NoRedis)
    \<and> conversations_DELETE env NoRedis (Some p) = (Inr 0, NoRedis)
    \<and> conversation_GET env NoRedis c = (Inl not_found, NoRedis)
    \<and> (update_issues ub = [] \<longrightarrow>
          conversation_PUT env NoRedis c (Some ub) = (Inl not_found, NoRedis))
    \<and> (add_role (am_role ab) \<noteq> None \<longrightarrow>
          conversation_PATCH env NoRedis c (Some ab) = (Inl not_found, NoRedis))
    \<and> response_status (conversations_GET env Down l off) = 500
    \<and> (title_ok (cb_title cb) \<longrightarrow> response_status (conversations_POST env Down (Some cb)) = 500)
    \<and> response_status (conversation_DELETE env Down c) = 500
    \<and> response_status (conversations_DELETE env Down (Some p)) = 500
    \<and> response_status (conversation_GET env Down c) = 500
    \<and> (update_issues ub = [] \<longrightarrow> response_status (conversation_PUT env Down c (Some ub)) = 500)
    \<and> (add_role (am_role ab) \<noteq> None \<longrightarrow>
          response_status (conversation_PATCH env Down c (Some ab)) = 500)"
proof -
  have a: "conversations_GET env NoRedis l off = (Inr empty_page, NoRedis)"
    and a': "response_status (conversations_GET env Down l off) = 500"
    using assms by (simp_all add: conversations_GET_def Let_def response_status_def failure_def)
  have b: "title_ok (cb_title cb) \<longrightarrow>
          conversations_POST env NoRedis (Some cb) = (Inr (new_conversation env uid cb), NoRedis)"
    and b': "title_ok (cb_title cb) \<longrightarrow> response_status (conversations_POST env Down (Some cb)) = 500"
    using assms by (simp_all add: conversations_POST_def Let_def response_status_def failure_def)
  have c: "conversation_DELETE env NoRedis c = (Inr False, NoRedis)"
    and c': "response_status (conversation_DELETE env Down c) = 500"
    using assms by (simp_all add: conversation_DELETE_def response_status_def failure_def)
  have d: "conversations_DELETE env NoRedis (Some p) = (Inr 0, NoRedis)"
    and d': "response_status (conversations_DELETE env Down (Some p)) = 500"
    using assms split_comma_nonempty [of p]
    by (simp_all add: conversations_DELETE_def Let_def response_status_def failure_def)
  have e: "conversation_GET env NoRedis c = (Inl not_found, NoRedis)"
    and e': "response_status (conversation_GET env Down c) = 500"
    using assms
    by (simp_all add: conversation_GET_def getConversation_def response_status_def failure_def)
  have f: "update_issues ub = [] \<longrightarrow>
          conversation_PUT env NoRedis c (Some ub) = (Inl not_found, NoRedis)"
    and f': "update_issues ub = [] \<longrightarrow> response_status (conversation_PUT env Down c (Some ub)) = 500"
    using assms
    by (simp_all add: conversation_PUT_def getConversation_def response_status_def failure_def)
  have g: "add_role (am_role ab) \<noteq> None \<longrightarrow>
          conversation_PATCH env NoRedis c (Some ab) = (Inl not_found, NoRedis)"
    and g': "add_role (am_role ab) \<noteq> None \<longrightarrow>
          response_status (conversation_PATCH env Down c (Some ab)) = 500"
    using assms
    by (auto simp: conversation_PATCH_def getConversation_def response_status_def failure_def)
  from a a' b b' c c' d d' e e' f f' g g' show ?thesis by blast
qed

theorem get_without_store_is_not_found:
  "response_status (conversation_GET (example_env (Some ''u1'') ''n1'' 1000) NoRedis ''c1'') = 404
   \<and> response_status (conversation_PATCH (example_env (Some ''u1'') ''n1'' 1000) NoRedis ''c1''
         (Some example_add)) = 404
   \<and> response_status (conversation_PUT (example_env (Some ''u1'') ''n1'' 1000) NoRedis ''c1''
         (Some example_update)) = 404
   \<and> response_status (conversations_GET (example_env (Some ''u1'') ''n1'' 1000) Down None None) = 500"
  by (simp add: response_status_def conversation_GET_def conversation_PATCH_def conversation_PUT_def
      conversations_GET_def getConversation_def example_env_def current_user_def not_found_def
      failure_def example_add_def example_update_def add_role_def update_issues_def title_ok_def Let_def)

theorem store_unconfigured_or_unreachable_witness:
  "current_user (example_env (Some ''u1'') ''a1'' 1000) = Some ''u1''
   \<and> title_ok (cb_title example_create)
   \<and> update_issues example_update = []
   \<and> add_role (am_role example_add) \<noteq> None
   \<and> conversations_POST (example_env (Some ''u1'') ''a1'' 1000) NoRedis (Some example_create)
       = (Inr (example_conv ''a1''), NoRedis)
   \<and> conversations_GET (example_env (Some ''u1'') ''a1'' 1000) NoRedis None None
       = (Inr empty_page, NoRedis)
   \<and> conversation_PUT (example_env (Some ''u1'') ''a1'' 1000) NoRedis ''a1'' (Some example_update)
       = (Inl not_found, NoRedis)
   \<and> conversation_PATCH (example_env (Some ''u1'') ''a1'' 1000) NoRedis ''a1'' (Some example_add)
       = (Inl not_found, NoRedis)
   \<and> response_status (conversations_POST (example_env (Some ''u1'') ''a1'' 1000) Down
         (Some example_create)) = 500"
proof -
  have u: "current_user (example_env (Some ''u1'') ''a1'' 1000) = Some ''u1''"
    by (simp add: current_user_def example_env_def)
  have t: "title_ok (cb_title example_create)"
    by (simp add: title_ok_def example_create_def)
  have p: "update_issues example_update = []"
    by (simp add: update_issues_def example_update_def title_ok_def)
  have r: "add_role (am_role example_add) \<noteq> None"
    by (simp add: add_role_def example_add_def)
  have n: "new_conversation (example_env (Some ''u1'') ''a1'' 1000) ''u1'' example_create
      = example_conv ''a1''"
    by (simp add: new_conversation_def example_env_def example_create_def example_conv_def
        truthy_def)
  from u t p r n show ?thesis
    using store_unconfigured_or_unreachable [OF u, of None None example_create "''a1''" "''a1''" example_update example_add]
    by simp
qed

subsection \<open>Listing\<close>

text \<open>
  With a limit of at least 1 and a page that is not empty, the answer is the page of the
  index in descending order from the offset, at most \<open>limit\<close> long, with the index
  cardinality as total.
\<close>

lemma two_conversations_store: "two_conversations = Up two_db"
  unfolding two_conversations_def two_db_def
  by (simp add: conversations_POST_def example_env_def example_create_def current_user_def title_ok_def
     new_conversation_def Let_def truthy_def redis_set_def redis_zadd_def redis_expire_def
     getConversationKey_def getUserConversationsKey_def thirty_days_def empty_db_def
     zmembers_def zttl_def live_zset_def example_conv_def or_else_def)

lemma index_range_page:
  assumes "0 \<le> off" "1 \<le> lmt"
  shows "index_range xs off (off + lmt - 1) = take (nat lmt) (drop (nat off) xs)"
proof (cases "int (length xs) \<le> off")
  case True
  then show ?thesis using assms by (simp add: index_range_def Let_def)
next
  case False
  then have "min (off + lmt - 1) (int (length xs) - 1) - off + 1
      = min lmt (int (length xs) - off)" by linarith
  moreover have "nat (min lmt (int (length xs) - off)) = min (nat lmt) (length xs - nat off)"
    using assms False by linarith
  moreover have "\<not> min (off + lmt - 1) (int (length xs) - 1) < off"
    using assms False by linarith
  ultimately show ?thesis using assms False
    by (simp add: index_range_def Let_def min_def)
qed

lemma list_page:
  assumes "current_user env = Some uid" "1 \<le> l" "0 \<le> off"
    and "take (nat (min l 100)) (drop (nat off)
           (zrev_order (zmembers db (nowMs env) (getUserConversationsKey uid)))) = ids"
    and "ids \<noteq> []"
  shows "\<exists>page. conversations_GET env (Up db) (Some l) (Some off)
           = (Inr \<lparr>conversations = page,
                    total = int (redis_zcard db (nowMs env) (getUserConversationsKey uid)),
                    hasMore = (off + min l 100
                                < int (redis_zcard db (nowMs env) (getUserConversationsKey uid)))\<rparr>,
              Up db)
         \<and> page = List.map_filter (\<lambda>i. redis_get db (nowMs env) (getConversationKey uid i)) ids
         \<and> length page \<le> nat (min l 100)"
proof -
  have "1 \<le> min l 100" using assms(2) by simp
  then have ir: "index_range xs off (off + min l 100 - 1)
      = take (nat (min l 100)) (drop (nat off) xs)" for xs :: "string list"
    using index_range_page [OF assms(3)] by blast
  have r: "redis_zrevrange db (nowMs env) (getUserConversationsKey uid) off (off + min l 100 - 1) = ids"
    by (simp only: redis_zrevrange_def ir assms(4))
  have len: "length ids \<le> nat (min l 100)"
    using assms(4) by auto
  have mf: "List.map_filter (\<lambda>x. x) (map f ids) = List.map_filter f ids" for f :: "string \<Rightarrow> conversation option"
    by (induction ids) (simp_all split: option.splits)
  have "length (List.map_filter f ids) \<le> length ids" for f :: "string \<Rightarrow> conversation option"
    by (induction ids) (simp_all split: option.splits)
  then have "length (List.map_filter (\<lambda>i. redis_get db (nowMs env) (getConversationKey uid i)) ids) \<le> length ids" .
  with len r assms(1,3,5) mf show ?thesis
    by (simp add: conversations_GET_def Let_def max_def)
qed

text \<open>Scenario B: two conversations listed one per page, newest first.\<close>

lemma list_two_pages:
  "fst (conversations_GET (example_env (Some ''u1'') ''x'' 3000) (Up two_db) (Some 1) (Some 0))
     = Inr \<lparr>conversations = [example_conv ''b2''], total = 2, hasMore = True\<rparr>
   \<and> fst (conversations_GET (example_env (Some ''u1'') ''x'' 3000) (Up two_db) (Some 1) (Some 1))
     = Inr \<lparr>conversations = [example_conv ''a1''], total = 2, hasMore = False\<rparr>"
  by (simp add: conversations_GET_def example_env_def current_user_def Let_def two_db_def
      redis_zrevrange_def zmembers_def live_zset_def getUserConversationsKey_def zrev_order_def
      index_range_def redis_get_def getConversationKey_def List.map_filter_def redis_zcard_def)

text \<open>
  Claim C6, evaluated on the store of a user with two conversations. Asked for the page at
  offset 2 with limit 1, the handler finds the page empty and answers \<open>total = 0\<close>, where
  the index holds 2 entries and the claim asks for the index cardinality. Asked for
  limit 0 at offset 0, it sends the range \<open>0 .. -1\<close>, which is the whole index, and
  answers both conversations, where the claim asks for at most \<open>limit\<close> of them.
\<close>

theorem list_past_the_end_reports_no_total:
  "two_conversations = Up two_db
   \<and> redis_zcard two_db 3000 (getUserConversationsKey ''u1'') = 2
   \<and> conversations_GET (example_env (Some ''u1'') ''x'' 3000) two_conversations (Some 1) (Some 2)
       = (Inr \<lparr>conversations = [], total = 0, hasMore = False\<rparr>, two_conversations)
   \<and> fst (conversations_GET (example_env (Some ''u1'') ''x'' 3000) two_conversations
            (Some 0) (Some 0))
       = Inr \<lparr>conversations = [example_conv ''b2'', example_conv ''a1''], total = 2,
               hasMore = True\<rparr>"
  unfolding two_conversations_store
  by (simp add: conversations_GET_def example_env_def current_user_def Let_def two_db_def
      redis_zrevrange_def zmembers_def live_zset_def getUserConversationsKey_def zrev_order_def
      index_range_def redis_get_def getConversationKey_def List.map_filter_def redis_zcard_def
      empty_page_def)

subsection \<open>Appending a message\<close>

lemma zscore_zadd: "zscore (redis_zadd db now k s x) now k x = Some s"
  by (simp add: zscore_def zmembers_def live_zset_def redis_zadd_def zttl_def split: option.splits)






text \<open>
  Stores reached from a well-keyed one (the empty store is) by operations of users with
  colon-free ids are well keyed: a record read for \<open>(uid, c)\<close> has \<open>c\<close> as its id.
\<close>

lemma writes_refl: "writes_own_keys u db db"
  by (simp add: writes_own_keys_def)

lemma writes_put:
  "conv_id v = y \<Longrightarrow>
   writes_own_keys u db (redis_zadd (redis_set db now (getConversationKey u y) v ex) now k s x)"
  by (auto simp: writes_own_keys_def)

lemma writes_expire:
  "writes_own_keys u db db1 \<Longrightarrow> writes_own_keys u db (redis_expire db1 now k secs)"
  by (simp add: writes_own_keys_def)

lemma writes_del_step:
  "writes_own_keys u db db1 \<Longrightarrow>
   writes_own_keys u db
     (if snd (redis_del db1 now k) \<noteq> 0
      then redis_zrem (fst (redis_del db1 now k)) now k' x
      else fst (redis_del db1 now k))"
  unfolding writes_own_keys_def
proof (intro allI)
  fix j
  assume a: "\<forall>k. strings db1 k = strings db k \<or> strings db1 k = None \<or>
          (\<exists>v e. k = getConversationKey u (conv_id v) \<and> strings db1 k = Some (v, e))"
  let ?d = "if snd (redis_del db1 now k) \<noteq> 0
      then redis_zrem (fst (redis_del db1 now k)) now k' x
      else fst (redis_del db1 now k)"
  have s: "strings ?d = (strings db1)(k := None)" by simp
  from a have "strings db1 j = strings db j \<or> strings db1 j = None \<or>
          (\<exists>v e. j = getConversationKey u (conv_id v) \<and> strings db1 j = Some (v, e))"
    by blast
  then show "strings ?d j = strings db j \<or> strings ?d j = None \<or>
          (\<exists>v e. j = getConversationKey u (conv_id v) \<and> strings ?d j = Some (v, e))"
    unfolding s by (cases "j = k") auto
qed

lemma writes_delete_loop:
  "writes_own_keys u db db1 \<Longrightarrow> writes_own_keys u db (fst (delete_loop db1 now uid ids n))"
proof (induction ids arbitrary: db1 n)
  case Nil
  then show ?case by simp
next
  case (Cons x ids)
  from writes_del_step [OF Cons.prems, of now "getConversationKey uid x"
      "getUserConversationsKey uid" x]
  show ?case
    by (auto simp: split_beta Let_def intro: Cons.IH split: if_splits)
qed

lemma run_op_writes:
  assumes "current_user env = Some u"
  shows "\<exists>db'. run_op env (Up db) op = Up db' \<and> writes_own_keys u db db'"
proof (cases op)
  case (Create b)
  with assms show ?thesis
    by (auto simp: conversations_POST_def Let_def writes_refl new_conversation_def
        intro!: writes_expire writes_put split: option.splits)
next
  case (Append c b)
  with assms show ?thesis
    by (auto simp: conversation_PATCH_def getConversation_def saveConversation_def Let_def
        writes_refl intro!: writes_put split: option.splits)
next
  case (Replace c b)
  with assms show ?thesis
    by (auto simp: conversation_PUT_def getConversation_def saveConversation_def Let_def
        writes_refl apply_update_def intro!: writes_put split: option.splits)
next
  case (Delete c)
  with assms show ?thesis
    using writes_del_step [OF writes_refl, of u db "nowMs env" "getConversationKey u c"
        "getUserConversationsKey u" c]
    by (auto simp: conversation_DELETE_def getConversation_def writes_refl Let_def split_beta
        split: option.splits)
next
  case (DeleteMany p)
  with assms show ?thesis
    using writes_delete_loop [OF writes_refl, of u db "nowMs env" u]
    by (auto simp: conversations_DELETE_def writes_refl Let_def split_beta)
next
  case (Get c)
  then show ?thesis by (simp add: get_unchanged writes_refl)
next
  case (List l off)
  then show ?thesis by (simp add: list_unchanged writes_refl)
qed

lemma writes_well_keyed:
  assumes "well_keyed db" "writes_own_keys u db db'" "colon_free u"
  shows "well_keyed db'"
  unfolding well_keyed_def
proof (intro allI impI)
  fix uid c conv e
  assume cf: "colon_free uid" and s: "strings db' (getConversationKey uid c) = Some (conv, e)"
  from assms(2) have "strings db' (getConversationKey uid c) = strings db (getConversationKey uid c)
      \<or> strings db' (getConversationKey uid c) = None
      \<or> (\<exists>v e. getConversationKey uid c = getConversationKey u (conv_id v)
            \<and> strings db' (getConversationKey uid c) = Some (v, e))"
    unfolding writes_own_keys_def by blast
  then show "conv_id conv = c"
  proof (elim disjE exE conjE)
    assume "strings db' (getConversationKey uid c) = strings db (getConversationKey uid c)"
    with s assms(1) cf show ?thesis unfolding well_keyed_def by metis
  next
    assume "strings db' (getConversationKey uid c) = None"
    with s show ?thesis by simp
  next
    fix v e'
    assume k: "getConversationKey uid c = getConversationKey u (conv_id v)"
      and "strings db' (getConversationKey uid c) = Some (v, e')"
    with s have "v = conv" by simp
    with k conv_key_inj [OF cf assms(3), of c "conv_id v"] show ?thesis by simp
  qed
qed

lemma run_ops_well_keyed:
  "well_keyed db \<Longrightarrow> list_all colon_free_step steps
     \<Longrightarrow> \<exists>db'. run_ops (Up db) steps = Up db' \<and> well_keyed db'"
proof (induction steps arbitrary: db)
  case Nil
  then show ?case by simp
next
  case (Cons step steps)
  show ?case
  proof (cases "current_user (fst step)")
    case None
    with Cons show ?thesis by (simp add: unauthorized_unchanged)
  next
    case (Some u)
    with Cons.prems(2) have cf: "colon_free u" by (simp add: colon_free_step_def)
    from run_op_writes [OF Some, of db "snd step"]
    obtain db1 where "run_op (fst step) (Up db) (snd step) = Up db1" "writes_own_keys u db db1"
      by blast
    with writes_well_keyed [OF Cons.prems(1) _ cf] Cons.IH [of db1] Cons.prems(2)
    show ?thesis by simp
  qed
qed

lemma well_keyed_get:
  "well_keyed db \<Longrightarrow> colon_free uid \<Longrightarrow> redis_get db now (getConversationKey uid c) = Some conv
     \<Longrightarrow> conv_id conv = c"
  unfolding well_keyed_def redis_get_def
  by (auto split: option.splits if_splits)

subsection \<open>Index and records in lockstep\<close>

text \<open>What each operation does to the set of stored records and to the index score.\<close>

lemma conv_key_same: "(getConversationKey u c = getConversationKey u c') = (c = c')"
  by (simp add: getConversationKey_def)

lemma inv_record_exists:
  assumes "store_inv T db" "now \<le> T"
  shows "record_exists (Up db) now u c = (strings db (getConversationKey u c) \<noteq> None)"
proof -
  from assms(1) have "fresh_until T db" by (simp add: store_inv_def)
  from fresh_get [OF this assms(2)] show ?thesis
    by (cases "strings db (getConversationKey u c)") (simp_all add: record_exists_def)
qed

lemma inv_in_index:
  assumes "store_inv T db" "now \<le> T" "colon_free u"
  shows "in_index (Up db) now u c = (strings db (getConversationKey u c) \<noteq> None)"
  using inv_lockstep [OF assms(1,2)] assms(3) inv_record_exists [OF assms(1,2)]
  by (simp add: lockstep_def)

lemma window_step:
  "current_user env = Some u \<Longrightarrow> colon_free u \<Longrightarrow> t0 \<le> nowMs env \<Longrightarrow> nowMs env \<le> T
     \<Longrightarrow> in_window t0 T (env, op)"
  by (simp add: in_window_def)

lemma window_colon_free: "list_all (in_window t0 T) steps \<Longrightarrow> list_all colon_free_step steps"
  by (induction steps) (auto simp: in_window_def colon_free_step_def split: option.splits)

lemma create_strings:
  assumes "current_user env = Some u" "title_ok (cb_title cb)"
    and "run_op env (Up db) (Create (Some cb)) = Up db2"
  shows "strings db2 = (strings db)(getConversationKey u (nanoid env) \<mapsto>
            (new_conversation env u cb, nowMs env + thirty_days * 1000))"
proof -
  have "conv_id (new_conversation env u cb) = nanoid env"
    by (simp add: new_conversation_def)
  with assms show ?thesis
    by (auto simp: conversations_POST_def Let_def)
qed

lemma delete_strings:
  assumes "current_user env = Some u" "fresh_until T db" "nowMs env \<le> T"
    and "run_op env (Up db) (Delete c) = Up db2"
  shows "(strings db2 k \<noteq> None) = (k \<noteq> getConversationKey u c \<and> strings db k \<noteq> None)"
proof (cases "redis_get db (nowMs env) (getConversationKey u c)")
  case None
  with assms(1,4) have "db2 = db"
    by (simp add: conversation_DELETE_def getConversation_def)
  moreover from None fresh_get [OF assms(2,3)] have "strings db (getConversationKey u c) = None"
    by simp
  ultimately show ?thesis by auto
next
  case (Some conv)
  with assms(1,4) have "strings db2 = (strings db)(getConversationKey u c := None)"
    by (auto simp: conversation_DELETE_def getConversation_def Let_def split_beta
        split: if_splits)
  then show ?thesis by simp
qed

lemma delete_loop_strings:
  "strings (fst (delete_loop db now u ids n)) k
     = (if k \<in> getConversationKey u ` set ids then None else strings db k)"
proof (induction ids arbitrary: db n)
  case Nil
  then show ?case by simp
next
  case (Cons x ids)
  show ?case
    by (cases "snd (redis_del db now (getConversationKey u x)) = 0")
      (auto simp: split_beta Let_def Cons.IH)
qed

lemma delete_many_strings:
  assumes "current_user env = Some u"
    and "run_op env (Up db) (DeleteMany (Some p)) = Up db2"
  shows "(strings db2 k \<noteq> None)
     = (k \<notin> getConversationKey u ` set (split_comma p) \<and> strings db k \<noteq> None)"
proof -
  from assms have "db2 = fst (delete_loop db (nowMs env) u (split_comma p) 0)"
    using split_comma_nonempty [of p]
    by (simp add: conversations_DELETE_def Let_def split_beta)
  then show ?thesis by (simp add: delete_loop_strings)
qed

lemma get_some_stored:
  "redis_get db now k = Some conv \<Longrightarrow> strings db k \<noteq> None"
  by (auto simp: redis_get_def split: option.splits)

lemma append_strings:
  assumes "current_user env = Some u" "colon_free u" "well_keyed db"
    and "run_op env (Up db) (Append c ab) = Up db2"
  shows "(strings db2 k \<noteq> None) = (strings db k \<noteq> None)"
proof (cases "redis_get db (nowMs env) (getConversationKey u c)")
  case None
  with assms(1,4) have "db2 = db"
    by (auto simp: conversation_PATCH_def getConversation_def split: option.splits)
  then show ?thesis by simp
next
  case (Some conv)
  from well_keyed_get [OF assms(3,2) Some] have id: "conv_id conv = c" .
  show ?thesis
  proof (cases "\<exists>b r. ab = Some b \<and> add_role (am_role b) = Some r")
    case False
    with assms(1,4) have "db2 = db"
      by (auto simp: conversation_PATCH_def split: option.splits)
    then show ?thesis by simp
  next
    case True
    then obtain b r where "ab = Some b" "add_role (am_role b) = Some r" by blast
    with assms(1,4) Some id
    have "strings db2 (getConversationKey u c) \<noteq> None"
      and "k \<noteq> getConversationKey u c \<Longrightarrow> strings db2 k = strings db k"
      by (auto simp: conversation_PATCH_def getConversation_def saveConversation_def Let_def)
    with get_some_stored [OF Some] show ?thesis
      by (cases "k = getConversationKey u c") simp_all
  qed
qed

lemma replace_strings:
  assumes "current_user env = Some u" "colon_free u" "well_keyed db"
    and "run_op env (Up db) (Replace c ub) = Up db2"
  shows "(strings db2 k \<noteq> None) = (strings db k \<noteq> None)"
proof (cases "redis_get db (nowMs env) (getConversationKey u c)")
  case None
  with assms(1,4) have "db2 = db"
    by (auto simp: conversation_PUT_def getConversation_def split: option.splits if_splits)
  then show ?thesis by simp
next
  case (Some conv)
  from well_keyed_get [OF assms(3,2) Some] have id: "conv_id conv = c" .
  have id': "conv_id (apply_update env b conv) = c" for b
    using id by (simp add: apply_update_def Let_def split: option.splits)
  show ?thesis
  proof (cases "\<exists>b. ub = Some b \<and> update_issues b = []")
    case False
    with assms(1,4) have "db2 = db"
      by (auto simp: conversation_PUT_def split: option.splits if_splits)
    then show ?thesis by simp
  next
    case True
    then obtain b where "ub = Some b" "update_issues b = []" by blast
    with assms(1,4) Some id' [of b]
    have "strings db2 (getConversationKey u c) \<noteq> None"
      and "k \<noteq> getConversationKey u c \<Longrightarrow> strings db2 k = strings db k"
      by (auto simp: conversation_PUT_def getConversation_def saveConversation_def Let_def)
    with get_some_stored [OF Some] show ?thesis
      by (cases "k = getConversationKey u c") simp_all
  qed
qed

lemma append_score:
  assumes "current_user env = Some u" "add_role (am_role b) \<noteq> None"
    and "record_exists (Up db) (nowMs env) u c"
  shows "index_score (run_op env (Up db) (Append c (Some b))) (nowMs env) u
           (conv_id (the (redis_get db (nowMs env) (getConversationKey u c)))) = Some (nowMs env)"
  using assms
  by (auto simp: index_score_def record_exists_def conversation_PATCH_def getConversation_def
      saveConversation_def Let_def zscore_zadd)

lemma replace_score:
  assumes "current_user env = Some u" "update_issues b = []"
    and "record_exists (Up db) (nowMs env) u c"
  shows "index_score (run_op env (Up db) (Replace c (Some b))) (nowMs env) u
           (conv_id (the (redis_get db (nowMs env) (getConversationKey u c)))) = Some (nowMs env)"
proof -
  have "conv_id (apply_update env b conv) = conv_id conv" for conv
    by (simp add: apply_update_def Let_def split: option.splits)
  with assms show ?thesis
    by (auto simp: index_score_def record_exists_def conversation_PUT_def getConversation_def
        saveConversation_def Let_def zscore_zadd)
qed

lemma key_image: "(getConversationKey u c \<in> getConversationKey u ` S) = (c \<in> S)"
  by (auto simp: conv_key_same)

text \<open>
  Claim C8, amended. Start from a store in which index and records are in lockstep, every
  record sits under the key of its own id and no key expires by the instant \<open>T\<close> (the
  empty store is one). Let \<open>R\<close> be the store after any sequence of conversation-store
  operations made for users whose ids hold no colon, at instants of a window \<open>[t0, T]\<close>
  shorter than the thirty days of retention. Then \<open>R\<close> is in lockstep: a conversation id
  is in a user's index exactly when that user's record exists, read at any instant up to
  \<open>T\<close>. One more operation of such a user inside the window keeps the lockstep and
  changes records and index together: create adds the new id to both and leaves the
  other ids as they were; delete removes the id from both, and delete-many every listed
  id, leaving the others; append and replace leave the records and the index with the
  same ids and, when the conversation exists and the body is valid, set its index score
  to the instant of the operation.
\<close>

theorem lockstep_within_retention:
  assumes f: "fresh_until T db" and l: "lockstep (Up db) T" and wk: "well_keyed db"
    and ttl: "T < t0 + thirty_days * 1000"
    and steps: "list_all (in_window t0 T) steps"
    and now: "now \<le> T"
    and user: "current_user env = Some uid" and cf: "colon_free uid"
    and lo: "t0 \<le> nowMs env" and hi: "nowMs env \<le> T"
    and R: "R = run_ops (Up db) steps"
  shows "(\<exists>db'. R = Up db')
    \<and> lockstep R now
    \<and> lockstep (run_op env R op) now
    \<and> (title_ok (cb_title cb) \<longrightarrow>
          (\<forall>c'. record_exists (run_op env R (Create (Some cb))) now uid c'
                  = (c' = nanoid env \<or> record_exists R now uid c'))
        \<and> (\<forall>c'. in_index (run_op env R (Create (Some cb))) now uid c'
                  = (c' = nanoid env \<or> in_index R now uid c')))
    \<and> (\<forall>c'. record_exists (run_op env R (Delete c)) now uid c'
                = (c' \<noteq> c \<and> record_exists R now uid c'))
    \<and> (\<forall>c'. in_index (run_op env R (Delete c)) now uid c'
                = (c' \<noteq> c \<and> in_index R now uid c'))
    \<and> (\<forall>c'. record_exists (run_op env R (DeleteMany (Some p))) now uid c'
                = (c' \<notin> set (split_comma p) \<and> record_exists R now uid c'))
    \<and> (\<forall>c'. in_index (run_op env R (DeleteMany (Some p))) now uid c'
                = (c' \<notin> set (split_comma p) \<and> in_index R now uid c'))
    \<and> (\<forall>c'. record_exists (run_op env R (Append c ab)) now uid c' = record_exists R now uid c')
    \<and> (\<forall>c'. in_index (run_op env R (Append c ab)) now uid c' = in_index R now uid c')
    \<and> (\<forall>c'. record_exists (run_op env R (Replace c ub)) now uid c' = record_exists R now uid c')
    \<and> (\<forall>c'. in_index (run_op env R (Replace c ub)) now uid c' = in_index R now uid c')
    \<and> (add_role (am_role amb) \<noteq> None \<and> record_exists R (nowMs env) uid c \<longrightarrow>
          index_score (run_op env R (Append c (Some amb))) (nowMs env) uid c = Some (nowMs env))
    \<and> (update_issues upb = [] \<and> record_exists R (nowMs env) uid c \<longrightarrow>
          index_score (run_op env R (Replace c (Some upb))) (nowMs env) uid c = Some (nowMs env))"
proof -
  from run_ops_inv [OF ttl lockstep_inv [OF f l] steps] R
  obtain db1 where R1: "R = Up db1" and inv1: "store_inv T db1" by auto
  from run_ops_well_keyed [OF wk window_colon_free [OF steps]] R R1
  have wk1: "well_keyed db1" by auto
  from inv1 have f1: "fresh_until T db1" by (simp add: store_inv_def)
  from lo ttl have ttl': "T < nowMs env + thirty_days * 1000" by simp
  have step: "\<exists>db2. run_op env (Up db1) x = Up db2 \<and> store_inv T db2" for x
    using run_op_inv [OF inv1 window_step [OF user cf lo hi] ttl] .
  have rec1: "record_exists (Up db1) now uid c' = (strings db1 (getConversationKey uid c') \<noteq> None)"
    and idx1: "in_index (Up db1) now uid c' = (strings db1 (getConversationKey uid c') \<noteq> None)"
    for c'
    using inv_record_exists [OF inv1 now] inv_in_index [OF inv1 now cf] by simp_all
  have after: "record_exists (run_op env (Up db1) x) now uid c' = (strings db2 (getConversationKey uid c') \<noteq> None)
      \<and> in_index (run_op env (Up db1) x) now uid c' = (strings db2 (getConversationKey uid c') \<noteq> None)"
    if "run_op env (Up db1) x = Up db2" for x db2 c'
  proof -
    from step [of x] that have "store_inv T db2" by auto
    from inv_record_exists [OF this now] inv_in_index [OF this now cf] that show ?thesis by simp
  qed
  have a: "\<exists>db'. R = Up db'" using R1 by blast
  have b: "lockstep R now" using inv_lockstep [OF inv1 now] R1 by simp
  have c0: "lockstep (run_op env R op) now"
    using step [of op] inv_lockstep [OF _ now] R1 by auto
  have cr: "title_ok (cb_title cb) \<longrightarrow>
          (\<forall>c'. record_exists (run_op env R (Create (Some cb))) now uid c'
                  = (c' = nanoid env \<or> record_exists R now uid c'))
        \<and> (\<forall>c'. in_index (run_op env R (Create (Some cb))) now uid c'
                  = (c' = nanoid env \<or> in_index R now uid c'))"
  proof
    assume t: "title_ok (cb_title cb)"
    from step [of "Create (Some cb)"] obtain db2 where
      s: "run_op env (Up db1) (Create (Some cb)) = Up db2" by blast
    from create_strings [OF user t s] after [OF s] rec1 idx1
    show "(\<forall>c'. record_exists (run_op env R (Create (Some cb))) now uid c'
                  = (c' = nanoid env \<or> record_exists R now uid c'))
        \<and> (\<forall>c'. in_index (run_op env R (Create (Some cb))) now uid c'
                  = (c' = nanoid env \<or> in_index R now uid c'))"
      unfolding R1 by (simp add: conv_key_same)
  qed
  have de: "(\<forall>c'. record_exists (run_op env R (Delete c)) now uid c'
                = (c' \<noteq> c \<and> record_exists R now uid c'))
    \<and> (\<forall>c'. in_index (run_op env R (Delete c)) now uid c'
                = (c' \<noteq> c \<and> in_index R now uid c'))"
  proof -
    from step [of "Delete c"] obtain db2 where
      s: "run_op env (Up db1) (Delete c) = Up db2" by blast
    from delete_strings [OF user f1 hi s] after [OF s] rec1 idx1
    show ?thesis unfolding R1 by (simp add: conv_key_same)
  qed
  have dm: "(\<forall>c'. record_exists (run_op env R (DeleteMany (Some p))) now uid c'
                = (c' \<notin> set (split_comma p) \<and> record_exists R now uid c'))
    \<and> (\<forall>c'. in_index (run_op env R (DeleteMany (Some p))) now uid c'
                = (c' \<notin> set (split_comma p) \<and> in_index R now uid c'))"
  proof -
    from step [of "DeleteMany (Some p)"] obtain db2 where
      s: "run_op env (Up db1) (DeleteMany (Some p)) = Up db2" by blast
    from delete_many_strings [OF user s] after [OF s] rec1 idx1
    show ?thesis unfolding R1 by (simp add: key_image)
  qed
  have ap: "(\<forall>c'. record_exists (run_op env R (Append c ab)) now uid c' = record_exists R now uid c')
    \<and> (\<forall>c'. in_index (run_op env R (Append c ab)) now uid c' = in_index R now uid c')"
  proof -
    from step [of "Append c ab"] obtain db2 where
      s: "run_op env (Up db1) (Append c ab) = Up db2" by blast
    from append_strings [OF user cf wk1 s] after [OF s] rec1 idx1
    show ?thesis unfolding R1 by simp
  qed
  have re: "(\<forall>c'. record_exists (run_op env R (Replace c ub)) now uid c' = record_exists R now uid c')
    \<and> (\<forall>c'. in_index (run_op env R (Replace c ub)) now uid c' = in_index R now uid c')"
  proof -
    from step [of "Replace c ub"] obtain db2 where
      s: "run_op env (Up db1) (Replace c ub) = Up db2" by blast
    from replace_strings [OF user cf wk1 s] after [OF s] rec1 idx1
    show ?thesis unfolding R1 by simp
  qed
  have own: "conv_id (the (redis_get db1 (nowMs env) (getConversationKey uid c))) = c"
    if "record_exists (Up db1) (nowMs env) uid c"
  proof -
    from that obtain conv where g: "redis_get db1 (nowMs env) (getConversationKey uid c) = Some conv"
      by (auto simp: record_exists_def)
    with well_keyed_get [OF wk1 cf g] show ?thesis by simp
  qed
  have sa: "add_role (am_role amb) \<noteq> None \<and> record_exists R (nowMs env) uid c \<longrightarrow>
          index_score (run_op env R (Append c (Some amb))) (nowMs env) uid c = Some (nowMs env)"
    using append_score [OF user, of amb db1 c] own unfolding R1 by auto
  have sr: "update_issues upb = [] \<and> record_exists R (nowMs env) uid c \<longrightarrow>
          index_score (run_op env R (Replace c (Some upb))) (nowMs env) uid c = Some (nowMs env)"
    using replace_score [OF user, of upb db1 c] own unfolding R1 by auto
  from a b c0 cr de dm ap re sa sr show ?thesis by blast
qed

lemma create_one_store:
  "run_ops (Up empty_db) create_one =
     Up \<lparr>strings = [''conversation:u1:a1'' \<mapsto> (example_conv ''a1'', 2592001000)],
         zsets = [''conversations:u1'' \<mapsto>
                    \<lparr>members = [(''a1'', 1000)], zexpires = Some 2592001000\<rparr>]\<rparr>"
  by (simp add: create_one_def conversations_POST_def
     example_env_def example_create_def current_user_def title_ok_def
     new_conversation_def Let_def truthy_def redis_set_def redis_zadd_def redis_expire_def
     getConversationKey_def getUserConversationsKey_def thirty_days_def empty_db_def
     zmembers_def zttl_def live_zset_def example_conv_def or_else_def)

theorem lockstep_within_retention_witness:
  "fresh_until 5000 empty_db
   \<and> lockstep (Up empty_db) 5000
   \<and> well_keyed empty_db
   \<and> (5000::nat) < 1000 + thirty_days * 1000
   \<and> list_all (in_window 1000 5000) create_one
   \<and> current_user (example_env (Some ''u1'') ''b2'' 2000) = Some ''u1''
   \<and> colon_free ''u1''
   \<and> lockstep (run_ops (Up empty_db) create_one) 3000
   \<and> record_exists (run_ops (Up empty_db) create_one) 3000 ''u1'' ''a1''
   \<and> in_index (run_ops (Up empty_db) create_one) 3000 ''u1'' ''a1''
   \<and> record_exists (run_op (example_env (Some ''u1'') ''b2'' 2000)
         (run_ops (Up empty_db) create_one) (Create (Some example_create))) 3000 ''u1'' ''b2''
   \<and> in_index (run_op (example_env (Some ''u1'') ''b2'' 2000)
         (run_ops (Up empty_db) create_one) (Create (Some example_create))) 3000 ''u1'' ''b2''
   \<and> in_index (run_op (example_env (Some ''u1'') ''b2'' 2000)
         (run_ops (Up empty_db) create_one) (Create (Some example_create))) 3000 ''u1'' ''a1''
   \<and> \<not> record_exists (run_op (example_env (Some ''u1'') ''b2'' 2000)
         (run_ops (Up empty_db) create_one) (Delete ''a1'')) 3000 ''u1'' ''a1''
   \<and> \<not> in_index (run_op (example_env (Some ''u1'') ''b2'' 2000)
         (run_ops (Up empty_db) create_one) (Delete ''a1'')) 3000 ''u1'' ''a1''
   \<and> index_score (run_op (example_env (Some ''u1'') ''b2'' 2000)
         (run_ops (Up empty_db) create_one) (Append ''a1'' (Some example_add))) 2000 ''u1'' ''a1''
       = Some 2000"
proof -
  have f: "fresh_until 5000 empty_db"
    by (simp add: fresh_until_def empty_db_def)
  have l: "lockstep (Up empty_db) 5000"
    by (simp add: lockstep_def in_index_def record_exists_def zmembers_def live_zset_def
        redis_get_def empty_db_def)
  have k: "well_keyed empty_db"
    by (simp add: well_keyed_def empty_db_def)
  have t: "(5000::nat) < 1000 + thirty_days * 1000"
    by (simp add: thirty_days_def)
  have w: "list_all (in_window 1000 5000) create_one"
    by (simp add: create_one_def in_window_def example_env_def current_user_def colon_free_def)
  have u: "current_user (example_env (Some ''u1'') ''b2'' 2000) = Some ''u1''"
    by (simp add: current_user_def example_env_def)
  have c: "colon_free ''u1''"
    by (simp add: colon_free_def)
  have n: "nowMs (example_env (Some ''u1'') ''b2'' 2000) = 2000"
    and i: "nanoid (example_env (Some ''u1'') ''b2'' 2000) = ''b2''"
    by (simp_all add: example_env_def)
  have r3: "record_exists (run_ops (Up empty_db) create_one) 3000 ''u1'' ''a1''"
    and r2: "record_exists (run_ops (Up empty_db) create_one) 2000 ''u1'' ''a1''"
    unfolding create_one_store
    by (simp_all add: record_exists_def redis_get_def getConversationKey_def)
  have tt: "title_ok (cb_title example_create)"
    by (simp add: title_ok_def example_create_def)
  have ar: "add_role (am_role example_add) \<noteq> None"
    by (simp add: add_role_def example_add_def)
  have nw: "(3000::nat) \<le> 5000" by simp
  have lo: "1000 \<le> nowMs (example_env (Some ''u1'') ''b2'' 2000)"
    and hi: "nowMs (example_env (Some ''u1'') ''b2'' 2000) \<le> 5000"
    by (simp_all add: n)
  note th = lockstep_within_retention [OF f l k t w nw u c lo hi refl]
  note rest = th [THEN conjunct2, THEN conjunct2, THEN conjunct2]
  from th have ls: "lockstep (run_ops (Up empty_db) create_one) 3000"
    by (rule conjunct2 [THEN conjunct1])
  with c r3 have x3: "in_index (run_ops (Up empty_db) create_one) 3000 ''u1'' ''a1''"
    by (simp add: lockstep_def)
  from rest [THEN conjunct1, of example_create] tt
  have cr: "record_exists (run_op (example_env (Some ''u1'') ''b2'' 2000)
         (run_ops (Up empty_db) create_one) (Create (Some example_create))) 3000 ''u1'' ''b2''"
    and ci: "in_index (run_op (example_env (Some ''u1'') ''b2'' 2000)
         (run_ops (Up empty_db) create_one) (Create (Some example_create))) 3000 ''u1'' ''b2''"
    by (simp_all add: i)
  from rest [THEN conjunct1, of example_create] tt x3
  have ca: "in_index (run_op (example_env (Some ''u1'') ''b2'' 2000)
         (run_ops (Up empty_db) create_one) (Create (Some example_create))) 3000 ''u1'' ''a1''"
    by simp
  from rest [THEN conjunct2, THEN conjunct1, of "''a1''"]
  have dr: "\<not> record_exists (run_op (example_env (Some ''u1'') ''b2'' 2000)
         (run_ops (Up empty_db) create_one) (Delete ''a1'')) 3000 ''u1'' ''a1''"
    by simp
  from rest [THEN conjunct2, THEN conjunct2, THEN conjunct1, of "''a1''"]
  have di: "\<not> in_index (run_op (example_env (Some ''u1'') ''b2'' 2000)
         (run_ops (Up empty_db) create_one) (Delete ''a1'')) 3000 ''u1'' ''a1''"
    by simp
  note scores = rest [THEN conjunct2, THEN conjunct2, THEN conjunct2, THEN conjunct2,
      THEN conjunct2, THEN conjunct2, THEN conjunct2, THEN conjunct2, THEN conjunct2]
  from scores [THEN conjunct1, of example_add "''a1''"] ar r2
  have sc: "index_score (run_op (example_env (Some ''u1'') ''b2'' 2000)
         (run_ops (Up empty_db) create_one) (Append ''a1'' (Some example_add))) 2000 ''u1'' ''a1''
       = Some 2000"
    by (simp add: n)
  from f l k t w u c ls r3 x3 cr ci ca dr di sc show ?thesis by simp
qed

lemma create_append_get_store:
  "run_ops (Up empty_db) create_append_get =
     Up \<lparr>strings = [''conversation:u1:a1'' \<mapsto>
              ((example_conv ''a1'')\<lparr>messages := [\<lparr>role = User, content = ''hi'',
                                       timestamp = ''2024-01-15T10:30:00.000Z''\<rparr>]\<rparr>, 4320000000)],
         zsets = [''conversations:u1'' \<mapsto>
                    \<lparr>members = [(''a1'', 1728000000)], zexpires = Some 2592001000\<rparr>]\<rparr>"
  by (simp add: create_append_get_def conversations_POST_def conversation_PATCH_def
     conversation_GET_def example_env_def example_create_def example_add_def current_user_def title_ok_def add_role_def
     new_conversation_def Let_def truthy_def redis_set_def redis_zadd_def redis_expire_def
     redis_get_def getConversation_def saveConversation_def
     getConversationKey_def getUserConversationsKey_def thirty_days_def empty_db_def
     zmembers_def zttl_def live_zset_def example_conv_def or_else_def)

text \<open>
  The sequence \<open>create_append_get\<close> loses the lockstep. The index key's expiry was set by
  the create and is not renewed by the append, which does renew the record's: on day 31
  the record is read while the index no longer holds its id, and the list is empty.
\<close>

theorem index_expires_before_record:
  "colon_free ''u1''
   \<and> record_exists (run_ops (Up empty_db) create_append_get) 2678400000 ''u1'' ''a1''
   \<and> \<not> in_index (run_ops (Up empty_db) create_append_get) 2678400000 ''u1'' ''a1''
   \<and> response_status (conversation_GET (example_env (Some ''u1'') ''x'' 2678400000)
         (run_ops (Up empty_db) create_append_get) ''a1'') = 200
   \<and> fst (conversations_GET (example_env (Some ''u1'') ''x'' 2678400000)
         (run_ops (Up empty_db) create_append_get) None None) = Inr empty_page"
  unfolding create_append_get_store
  by (simp add: colon_free_def record_exists_def in_index_def redis_get_def zmembers_def
      live_zset_def getConversationKey_def getUserConversationsKey_def response_status_def
      conversation_GET_def conversations_GET_def getConversation_def example_env_def
      current_user_def Let_def redis_zrevrange_def zrev_order_def index_range_def)


text \<open>
  Why the user ids are taken colon-free: the record key of user \<open>a\<close> for the id \<open>b:c\<close>
  is the record key of user \<open>a:b\<close> for the id \<open>c\<close>, so the delete of the first removes
  the record of the second and leaves its index entry.
\<close>

lemma colon_ids_share_keys:
  "getConversationKey ''a'' ''b:c'' = getConversationKey ''a:b'' ''c''
   \<and> in_index (run_ops (Up empty_db) delete_across_users) 3000 ''a:b'' ''c''
   \<and> \<not> record_exists (run_ops (Up empty_db) delete_across_users) 3000 ''a:b'' ''c''"
  by (simp add: delete_across_users_def conversations_POST_def conversation_DELETE_def
     example_env_def example_create_def current_user_def title_ok_def
     new_conversation_def Let_def truthy_def redis_set_def redis_zadd_def redis_expire_def
     redis_get_def redis_del_def redis_zrem_def getConversation_def
     getConversationKey_def getUserConversationsKey_def thirty_days_def empty_db_def
     zmembers_def zttl_def live_zset_def in_index_def record_exists_def)

end
